theory Spec2Isabelle
  imports Complex_Main "HOL-Library.Char_ord" "HOL-Library.List_Lexorder"
begin

section \<open>Text helpers\<close>

text \<open>
  Python strings are modelled as \<open>string\<close> restricted to ASCII. \<open>str.strip()\<close>
  removes the ASCII white space characters (tab, line feed, vertical tab, form feed,
  carriage return, the four separators 0x1c..0x1f and the blank) from both ends;
  \<open>str.lower()\<close> maps \<open>A..Z\<close> to \<open>a..z\<close>.
\<close>

definition is_space :: "char \<Rightarrow> bool" where
  "is_space c = (c \<in> set [CHR 0x09, CHR 0x0A, CHR 0x0B, CHR 0x0C, CHR 0x0D,
                           CHR 0x1C, CHR 0x1D, CHR 0x1E, CHR 0x1F, CHR 0x20])"

definition strip :: "string \<Rightarrow> string" where
  "strip s = rev (dropWhile is_space (rev (dropWhile is_space s)))"

definition lower_char :: "char \<Rightarrow> char" where
  "lower_char c =
     (case map_of (zip ''ABCDEFGHIJKLMNOPQRSTUVWXYZ'' ''abcdefghijklmnopqrstuvwxyz'') c of
        None \<Rightarrow> c | Some d \<Rightarrow> d)"

definition lower :: "string \<Rightarrow> string" where
  "lower s = map lower_char s"

definition startswith :: "string \<Rightarrow> string \<Rightarrow> bool" where
  "startswith s p = (take (length p) s = p)"

definition endswith :: "string \<Rightarrow> string \<Rightarrow> bool" where
  "endswith s p = (length p \<le> length s \<and> drop (length s - length p) s = p)"

text \<open>\<open>contains p s\<close> is Python's \<open>p in s\<close> on strings.\<close>

fun contains :: "string \<Rightarrow> string \<Rightarrow> bool" where
  "contains p [] = (p = [])"
| "contains p (c # cs) = (startswith (c # cs) p \<or> contains p cs)"

text \<open>Truthiness of an \<open>Optional[str]\<close>: \<open>None\<close> and the empty string are false.\<close>

fun truthy :: "string option \<Rightarrow> bool" where
  "truthy None = False"
| "truthy (Some s) = (s \<noteq> [])"

section \<open>The record\<close>

record Profile =
  name :: "string option"
  phone :: "string option"
  phone2 :: "string option"
  zip_code :: "string option"
  city :: "string option"
  street :: "string option"
  email :: "string option"
  profile_url :: "string option"

text \<open>\<open>Profile()\<close>: every field defaults to \<open>None\<close>.\<close>

definition empty_profile :: Profile where
  "empty_profile = \<lparr>name = None, phone = None, phone2 = None, zip_code = None,
     city = None, street = None, email = None, profile_url = None\<rparr>"

text \<open>The field names of the dataclass, in declaration order, with reflective access.\<close>

datatype field_name =
  F_name | F_phone | F_phone2 | F_zip_code | F_city | F_street | F_email | F_profile_url

fun getattr :: "Profile \<Rightarrow> field_name \<Rightarrow> string option" where
  "getattr p F_name = name p"
| "getattr p F_phone = phone p"
| "getattr p F_phone2 = phone2 p"
| "getattr p F_zip_code = zip_code p"
| "getattr p F_city = city p"
| "getattr p F_street = street p"
| "getattr p F_email = email p"
| "getattr p F_profile_url = profile_url p"

fun setattr :: "Profile \<Rightarrow> field_name \<Rightarrow> string option \<Rightarrow> Profile" where
  "setattr p F_name v = p\<lparr>name := v\<rparr>"
| "setattr p F_phone v = p\<lparr>phone := v\<rparr>"
| "setattr p F_phone2 v = p\<lparr>phone2 := v\<rparr>"
| "setattr p F_zip_code v = p\<lparr>zip_code := v\<rparr>"
| "setattr p F_city v = p\<lparr>city := v\<rparr>"
| "setattr p F_street v = p\<lparr>street := v\<rparr>"
| "setattr p F_email v = p\<lparr>email := v\<rparr>"
| "setattr p F_profile_url v = p\<lparr>profile_url := v\<rparr>"

definition profile_fields :: "field_name list" where
  "profile_fields =
     [F_name, F_phone, F_phone2, F_zip_code, F_city, F_street, F_email, F_profile_url]"

definition asdict :: "Profile \<Rightarrow> (field_name \<times> string option) list" where
  "asdict p = map (\<lambda>f. (f, getattr p f)) profile_fields"

section \<open>Merging\<close>

text \<open>
  \<open>merge_profiles\<close> walks the items of \<open>asdict(extra)\<close> and stores a value in
  \<open>base\<close> when the value is true and the field of \<open>base\<close> is not.
\<close>

definition merge_step :: "field_name \<times> string option \<Rightarrow> Profile \<Rightarrow> Profile" where
  "merge_step fv base =
     (if truthy (snd fv) \<and> \<not> truthy (getattr base (fst fv))
      then setattr base (fst fv) (snd fv) else base)"

definition merge_profiles :: "Profile \<Rightarrow> Profile \<Rightarrow> Profile" where
  "merge_profiles base extra = fold merge_step (asdict extra) base"

section \<open>Exceptions, responses and the effect trace\<close>

text \<open>
  A response of the HTTP library. \<open>resp_ok\<close> is its \<open>ok\<close> property, which is also
  the truth value of the object and decides whether \<open>raise_for_status\<close> raises.
\<close>

record response =
  resp_status_code :: int
  resp_ok :: bool
  resp_url :: string
  resp_headers :: "(string \<times> string) list"
  resp_encoding :: "string option"
  resp_content :: string
  resp_text :: string

datatype exn =
    AttributeError
  | HTTPError "response option"
  | RequestException
  | OSError
  | LookupError

datatype level = DEBUG | INFO | WARNING | ERROR

datatype message =
    MsgSitemapParse
  | MsgDownloading string
  | MsgSeedFailed string
  | MsgTotal nat
  | MsgWait real string
  | MsgHTTPError "int option" string
  | MsgNetFail string
  | MsgEmpty string
  | MsgUnhandled string
  | MsgProcessed nat

text \<open>What a run does besides returning: requests sent, pauses, log lines.\<close>

datatype event = Fetch string | Sleep real | Log level message

fun fetches :: "event list \<Rightarrow> string list" where
  "fetches [] = []"
| "fetches (Fetch u # tr) = u # fetches tr"
| "fetches (ev # tr) = fetches tr"


fun bind_exn :: "exn + 'a \<Rightarrow> ('a \<Rightarrow> exn + 'b) \<Rightarrow> exn + 'b" where
  "bind_exn (Inl e) f = Inl e"
| "bind_exn (Inr x) f = f x"

text \<open>
  The static remote side: what \<open>session.get\<close> answers for each URL, a finite table.
  A URL outside the table cannot be reached.
\<close>

type_synonym web = "(string \<times> (exn + response)) list"

definition raise_for_status :: "response \<Rightarrow> exn + response" where
  "raise_for_status r = (if resp_ok r then Inr r else Inl (HTTPError (Some r)))"

definition fetch_response :: "web \<Rightarrow> string \<Rightarrow> exn + response" where
  "fetch_response web url =
     (case map_of web url of
        None \<Rightarrow> Inl RequestException
      | Some got \<Rightarrow> bind_exn got raise_for_status)"

section \<open>Library functions taken as parameters\<close>

datatype xml = Element (elem_tag: string) (elem_text: "string option") (elem_children: "xml list")

datatype json =
  JNull | JBool bool | JNum int | JStr string | JArr "json list" | JObj "(string \<times> json) list"

text \<open>
  One element of the parsed page, in document order: its tag name, attributes,
  \<open>.string\<close> and \<open>.get_text()\<close>.
\<close>

record element =
  el_name :: string
  el_attrs :: "(string \<times> string) list"
  el_string :: "string option"
  el_text :: string

type_synonym soup = "element list"

text \<open>
  \<open>gzip.decompress\<close>, \<open>bytes.decode\<close> (by encoding name), \<open>ET.fromstring\<close>
  (\<open>None\<close> is \<open>ParseError\<close>), \<open>json.loads\<close> (\<open>None\<close> is \<open>JSONDecodeError\<close>) and
  \<open>BeautifulSoup(html, "html.parser")\<close>.
\<close>

record externals =
  gzip_decompress :: "string \<Rightarrow> exn + string"
  decode :: "string \<Rightarrow> string \<Rightarrow> exn + string"
  xml_fromstring :: "string \<Rightarrow> xml option"
  json_loads :: "string \<Rightarrow> json option"
  html_parser :: "string \<Rightarrow> soup"

section \<open>Sitemap walker\<close>

definition SITEMAP_NS :: string where
  "SITEMAP_NS = ''{http://www.sitemaps.org/schemas/sitemap/0.9}''"

definition PROFILE_FRAGMENT :: string where
  "PROFILE_FRAGMENT = ''/vermoegensberater/''"

definition header_get :: "response \<Rightarrow> string \<Rightarrow> string \<Rightarrow> string" where
  "header_get r k dflt =
     (case map_of (map (\<lambda>(h, v). (lower h, v)) (resp_headers r)) (lower k) of
        None \<Rightarrow> dflt | Some v \<Rightarrow> v)"

definition read_sitemap_content :: "externals \<Rightarrow> response \<Rightarrow> exn + string" where
  "read_sitemap_content env r =
     bind_exn
       (if lower (header_get r ''Content-Encoding'' []) = ''gzip'' \<or> endswith (resp_url r) ''.gz''
        then gzip_decompress env (resp_content r) else Inr (resp_content r))
       (decode env (case resp_encoding r of
                      None \<Rightarrow> ''utf-8''
                    | Some enc \<Rightarrow> if enc = [] then ''utf-8'' else enc))"

text \<open>\<open>root.findall(".//T")\<close>: the elements below the root with tag \<open>T\<close>, in document order.\<close>

fun descendants :: "xml \<Rightarrow> xml list" where
  "descendants (Element t x cs) = concat (map (\<lambda>c. c # descendants c) cs)"

definition findall :: "xml \<Rightarrow> string \<Rightarrow> xml list" where
  "findall tree t = filter (\<lambda>e. elem_tag e = t) (descendants tree)"

definition loc_text :: "xml \<Rightarrow> string list" where
  "loc_text e = (case elem_text e of None \<Rightarrow> [] | Some t \<Rightarrow> if t = [] then [] else [strip t])"

definition extract_loc_values :: "externals \<Rightarrow> string \<Rightarrow> string list \<times> event list" where
  "extract_loc_values env xml_text =
     (case xml_fromstring env xml_text of
        None \<Rightarrow> ([], [Log WARNING MsgSitemapParse])
      | Some tree \<Rightarrow>
          let loc_elements = findall tree (SITEMAP_NS @ ''loc'');
              loc_elements = (if loc_elements = [] then findall tree ''loc'' else loc_elements)
          in (concat (map loc_text loc_elements), []))"

text \<open>
  The result of one expansion: the profile URLs or the exception that ended it, the
  visited set the call worked on, and the events of the call.
\<close>

type_synonym walk = "(exn + string list) \<times> string set \<times> event list"

definition after_events :: "event list \<Rightarrow> walk option \<Rightarrow> walk option" where
  "after_events evs w = map_option (\<lambda>(r, seen, later). (r, seen, evs @ later)) w"

text \<open>
  The loop over the locations of one sitemap. \<open>recurse\<close> is the recursive call, which is
  handed the caller's set object: it went on with that object unless the object was
  empty, in which case \<open>seen or set()\<close> gave it a fresh one and the caller's stays empty.
\<close>

fun loop_locs ::
  "(string \<Rightarrow> string set \<Rightarrow> walk option) \<Rightarrow> string list \<Rightarrow> string set \<Rightarrow> string list \<Rightarrow>
   walk option" where
  "loop_locs recurse [] seen profile_urls = Some (Inr profile_urls, seen, [])"
| "loop_locs recurse (loc # locs) seen profile_urls =
     (if loc = [] then loop_locs recurse locs seen profile_urls
      else if endswith (lower loc) ''.xml'' \<or> endswith (lower loc) ''.xml.gz'' then
        (case recurse loc seen of
           None \<Rightarrow> None
         | Some (Inl e, seen', evs) \<Rightarrow> Some (Inl e, if seen = {} then seen else seen', evs)
         | Some (Inr found, seen', evs) \<Rightarrow>
             after_events evs
               (loop_locs recurse locs (if seen = {} then seen else seen')
                  (profile_urls @ found)))
      else if contains PROFILE_FRAGMENT (lower loc)
        then loop_locs recurse locs seen (profile_urls @ [loc])
      else loop_locs recurse locs seen profile_urls)"

text \<open>
  \<open>expand_sitemap\<close>, with the recursion depth as fuel: \<open>None\<close> means the fuel ran out.
  The interpreter's own recursion limit and the request timeout are not modelled.
\<close>

primrec expand_sitemap ::
  "nat \<Rightarrow> externals \<Rightarrow> web \<Rightarrow> string \<Rightarrow> string set option \<Rightarrow> walk option" where
  "expand_sitemap 0 env web url seen_arg = None"
| "expand_sitemap (Suc n) env web url seen_arg =
     (let seen = (case seen_arg of None \<Rightarrow> {} | Some s \<Rightarrow> s) in
      if url \<in> seen then Some (Inr [], seen, [])
      else
        let seen = insert url seen;
            evs = [Log DEBUG (MsgDownloading url), Fetch url]
        in case bind_exn (fetch_response web url) (read_sitemap_content env) of
             Inl e \<Rightarrow> Some (Inl e, seen, evs)
           | Inr xml_text \<Rightarrow>
               after_events (evs @ snd (extract_loc_values env xml_text))
                 (loop_locs (\<lambda>loc s. expand_sitemap n env web loc (Some s))
                    (fst (extract_loc_values env xml_text)) seen []))"

text \<open>The loop of \<open>collect_profile_urls\<close> over the seeds; each seed starts without a set.\<close>

fun collect_loop ::
  "nat \<Rightarrow> externals \<Rightarrow> web \<Rightarrow> string list \<Rightarrow> string set \<Rightarrow> (string set \<times> event list) option" where
  "collect_loop fuel env web [] urls = Some (urls, [])"
| "collect_loop fuel env web (sitemap_url # rest) urls =
     (case expand_sitemap fuel env web sitemap_url None of
        None \<Rightarrow> None
      | Some (Inl e, seen, evs) \<Rightarrow>
          map_option (\<lambda>(us, later). (us, evs @ [Log WARNING (MsgSeedFailed sitemap_url)] @ later))
            (collect_loop fuel env web rest urls)
      | Some (Inr found, seen, evs) \<Rightarrow>
          map_option (\<lambda>(us, later). (us, evs @ later))
            (collect_loop fuel env web rest (urls \<union> set found)))"

definition collect_profile_urls ::
  "nat \<Rightarrow> externals \<Rightarrow> web \<Rightarrow> string list \<Rightarrow> (string list \<times> event list) option" where
  "collect_profile_urls fuel env web sitemap_urls =
     (case collect_loop fuel env web sitemap_urls {} of
        None \<Rightarrow> None
      | Some (urls, evs) \<Rightarrow>
          let ordered = sorted_list_of_set urls
          in Some (ordered, evs @ [Log INFO (MsgTotal (length ordered))]))"

section \<open>Extraction engine\<close>

text \<open>\<open>dict.get(key)\<close>: a missing key and a JSON \<open>null\<close> are both Python's \<open>None\<close>.\<close>

definition dict_get :: "(string \<times> json) list \<Rightarrow> string \<Rightarrow> json" where
  "dict_get d k = (case map_of d k of None \<Rightarrow> JNull | Some v \<Rightarrow> v)"

fun ensure_list :: "json \<Rightarrow> json list" where
  "ensure_list JNull = []"
| "ensure_list (JArr xs) = xs"
| "ensure_list v = [v]"

text \<open>\<open>cleaned = value.strip(); return cleaned or None\<close>, on a string.\<close>

definition clean_str :: "string \<Rightarrow> string option" where
  "clean_str s = (let cleaned = strip s in if cleaned = [] then None else Some cleaned)"

text \<open>
  \<open>_clean_text\<close> on a JSON value: \<open>None\<close> stays \<open>None\<close>, a string is stripped, and
  anything else has no \<open>strip\<close> attribute.
\<close>

fun clean_text :: "json \<Rightarrow> exn + string option" where
  "clean_text JNull = Inr None"
| "clean_text (JStr s) = Inr (clean_str s)"
| "clean_text v = Inl AttributeError"

text \<open>\<open>if phone and phone not in telephones: telephones.append(phone)\<close>\<close>

definition add_phone :: "string option \<Rightarrow> string list \<Rightarrow> string list" where
  "add_phone ph telephones =
     (case ph of
        None \<Rightarrow> telephones
      | Some p \<Rightarrow> if p \<noteq> [] \<and> p \<notin> set telephones then telephones @ [p] else telephones)"

fun top_phones :: "json list \<Rightarrow> string list \<Rightarrow> exn + string list" where
  "top_phones [] telephones = Inr telephones"
| "top_phones (v # vs) telephones =
     bind_exn (clean_text v) (\<lambda>ph. top_phones vs (add_phone ph telephones))"

fun contact_points ::
  "json list \<Rightarrow> string list \<times> string option \<Rightarrow> exn + (string list \<times> string option)" where
  "contact_points [] st = Inr st"
| "contact_points (JObj contact # cs) (telephones, result_email) =
     bind_exn (clean_text (dict_get contact ''telephone'')) (\<lambda>ph.
     bind_exn (clean_text (dict_get contact ''email'')) (\<lambda>em.
       contact_points cs
         (add_phone ph telephones,
          if truthy em \<and> \<not> truthy result_email then em else result_email)))"
| "contact_points (v # cs) st = contact_points cs st"

text \<open>\<open>result.phone = telephones[0]\<close> and \<open>result.phone2 = telephones[1]\<close>, when present.\<close>

definition set_phones :: "string list \<Rightarrow> Profile \<Rightarrow> Profile" where
  "set_phones telephones result =
     (case telephones of
        [] \<Rightarrow> result
      | [p] \<Rightarrow> result\<lparr>phone := Some p\<rparr>
      | p # q # others \<Rightarrow> result\<lparr>phone := Some p, phone2 := Some q\<rparr>)"

definition extract_from_schema :: "(string \<times> json) list \<Rightarrow> exn + Profile" where
  "extract_from_schema item =
     bind_exn (clean_text (dict_get item ''name'')) (\<lambda>nm.
     bind_exn (top_phones (ensure_list (dict_get item ''telephone'')) []) (\<lambda>telephones.
     bind_exn (contact_points (ensure_list (dict_get item ''contactPoint'')) (telephones, None))
       (\<lambda>(telephones, result_email).
     let result = set_phones telephones (empty_profile\<lparr>name := nm, email := result_email\<rparr>) in
     bind_exn
       (case dict_get item ''address'' of
          JObj address \<Rightarrow>
            bind_exn (clean_text (dict_get address ''streetAddress'')) (\<lambda>st.
            bind_exn (clean_text (dict_get address ''postalCode'')) (\<lambda>zp.
            bind_exn (clean_text (dict_get address ''addressLocality'')) (\<lambda>ct.
              Inr (result\<lparr>street := st, zip_code := zp, city := ct\<rparr>))))
        | other \<Rightarrow> Inr result) (\<lambda>result.
     if \<not> truthy (email result)
     then bind_exn (clean_text (dict_get item ''email'')) (\<lambda>em. Inr (result\<lparr>email := em\<rparr>))
     else Inr result))))"

text \<open>
  \<open>str(t).lower()\<close> is one of the four type names only for a string \<open>t\<close>: the text of a
  number, of \<open>True\<close>, \<open>False\<close> or \<open>None\<close>, of a list or of a dict is none of them.
\<close>

definition schema_types :: "string list" where
  "schema_types = [''person'', ''financialservice'', ''localbusiness'', ''professionalservice'']"

definition type_matches :: "json \<Rightarrow> bool" where
  "type_matches t = (case t of JStr s \<Rightarrow> lower s \<in> set schema_types | other \<Rightarrow> False)"

definition script_text :: "element \<Rightarrow> string" where
  "script_text script =
     (case el_string script of
        None \<Rightarrow> el_text script
      | Some s \<Rightarrow> if s = [] then el_text script else s)"

definition attr :: "element \<Rightarrow> string \<Rightarrow> string option" where
  "attr e k = map_of (el_attrs e) k"

definition payload_items :: "json \<Rightarrow> (string \<times> json) list list" where
  "payload_items payload =
     concat (map (\<lambda>item. case item of
                     JObj d \<Rightarrow> if list_ex type_matches (ensure_list (dict_get d ''@type''))
                               then [d] else []
                   | other \<Rightarrow> [])
                 (ensure_list payload))"

definition iter_schema_candidates :: "externals \<Rightarrow> soup \<Rightarrow> (string \<times> json) list list" where
  "iter_schema_candidates env sp =
     concat (map (\<lambda>script.
                    if script_text script = [] then []
                    else case json_loads env (script_text script) of
                           None \<Rightarrow> []
                         | Some payload \<Rightarrow> payload_items payload)
                 (filter (\<lambda>e. el_name e = ''script'' \<and> attr e ''type'' = Some ''application/ld+json'')
                    sp))"

text \<open>\<open>soup.find(attrs={"itemprop": v})\<close> and \<open>soup.find_all(attrs={"itemprop": v})\<close>.\<close>

definition find_all_itemprop :: "soup \<Rightarrow> string \<Rightarrow> element list" where
  "find_all_itemprop sp v = filter (\<lambda>e. attr e ''itemprop'' = Some v) sp"

definition find_itemprop :: "soup \<Rightarrow> string \<Rightarrow> element option" where
  "find_itemprop sp v = List.find (\<lambda>e. attr e ''itemprop'' = Some v) sp"

definition itemprop_text :: "soup \<Rightarrow> string \<Rightarrow> string option" where
  "itemprop_text sp v =
     (case find_itemprop sp v of None \<Rightarrow> None | Some t \<Rightarrow> clean_str (el_text t))"

fun micro_phones :: "element list \<Rightarrow> string list \<Rightarrow> string list" where
  "micro_phones [] phones = phones"
| "micro_phones (phone_tag # tags) phones =
     micro_phones tags (add_phone (clean_str (el_text phone_tag)) phones)"

text \<open>\<open>href.split(":", 1)[-1]\<close>: what follows the first colon, or all of it without one.\<close>

definition after_colon :: "string \<Rightarrow> string" where
  "after_colon h = (case dropWhile (\<lambda>c. c \<noteq> CHR '':'') h of [] \<Rightarrow> h | c # after \<Rightarrow> after)"

definition is_mailto :: "element \<Rightarrow> bool" where
  "is_mailto e =
     (el_name e = ''a'' \<and>
      (case attr e ''href'' of None \<Rightarrow> False | Some h \<Rightarrow> startswith (lower h) ''mailto:''))"

definition mail_link :: "soup \<Rightarrow> string option" where
  "mail_link sp =
     (case List.find is_mailto sp of
        None \<Rightarrow> None
      | Some email_tag \<Rightarrow>
          (case attr email_tag ''href'' of
             None \<Rightarrow> None
           | Some h \<Rightarrow> if h = [] then None else clean_str (after_colon h)))"

definition extract_microdata :: "soup \<Rightarrow> Profile" where
  "extract_microdata sp =
     (set_phones (micro_phones (find_all_itemprop sp ''telephone'') [])
        (empty_profile\<lparr>name := itemprop_text sp ''name''\<rparr>))
     \<lparr>email := mail_link sp,
      street := itemprop_text sp ''streetAddress'',
      zip_code := itemprop_text sp ''postalCode'',
      city := itemprop_text sp ''addressLocality''\<rparr>"

text \<open>The loop of \<open>parse_profile_page\<close> over the structured-data blocks.\<close>

fun merge_schemas :: "(string \<times> json) list list \<Rightarrow> Profile \<Rightarrow> exn + Profile" where
  "merge_schemas [] profile = Inr profile"
| "merge_schemas (schema # schemas) profile =
     bind_exn (extract_from_schema schema) (\<lambda>extra.
       merge_schemas schemas (merge_profiles profile extra))"

text \<open>
  \<open>parse_profile_page\<close> returns the record and, as its trace, whether
  \<open>extract_microdata\<close> was called.
\<close>

definition parse_profile_page :: "externals \<Rightarrow> string \<Rightarrow> string \<Rightarrow> exn + (Profile \<times> bool)" where
  "parse_profile_page env html url =
     (let sp = html_parser env html;
          profile = empty_profile\<lparr>profile_url := Some url\<rparr>
      in bind_exn (merge_schemas (iter_schema_candidates env sp) profile) (\<lambda>profile.
           if \<not> truthy (name profile) \<or> \<not> truthy (phone profile)
           then Inr (merge_profiles profile (extract_microdata sp), True)
           else Inr (profile, False)))"

section \<open>Fetch pipeline worker\<close>

text \<open>
  \<open>fetch_profile\<close>; \<open>sleep_time\<close> is the value \<open>random.uniform\<close> draws. The result is
  the trace and either the exception that leaves the function or the returned value.
\<close>

definition fetch_profile ::
  "externals \<Rightarrow> web \<Rightarrow> string \<Rightarrow> real \<times> real \<Rightarrow> real \<Rightarrow> event list \<times> (exn + Profile option)" where
  "fetch_profile env web url delay_range sleep_time =
     (let (min_delay, max_delay) = delay_range;
          tr = (if max_delay > 0 then [Log DEBUG (MsgWait sleep_time url), Sleep sleep_time] else [])
               @ [Fetch url]
      in case fetch_response web url of
           Inl (HTTPError r) \<Rightarrow>
             (tr @ [Log WARNING
                      (MsgHTTPError
                         (case r of
                            None \<Rightarrow> None
                          | Some resp \<Rightarrow> if resp_ok resp then Some (resp_status_code resp) else None)
                         url)],
              Inr None)
         | Inl RequestException \<Rightarrow> (tr @ [Log WARNING (MsgNetFail url)], Inr None)
         | Inl e \<Rightarrow> (tr, Inl e)
         | Inr resp \<Rightarrow>
             (case parse_profile_page env (resp_text resp) url of
                Inl e \<Rightarrow> (tr, Inl e)
              | Inr (profile, scanned) \<Rightarrow>
                  (tr @ (if \<not> (truthy (name profile) \<or> truthy (phone profile) \<or> truthy (email profile))
                         then [Log DEBUG (MsgEmpty url)] else []),
                   Inr (Some profile))))"

text \<open>
  The loop of \<open>main\<close> over the finished workers, in completion order: each entry is a
  URL with what its \<open>fetch_profile\<close> call raised or returned, \<open>index\<close> counts from 1.
  A record object is always true, so every returned record is appended.
\<close>

fun gather :: "nat \<Rightarrow> (string \<times> (exn + Profile option)) list \<Rightarrow> Profile list \<times> event list" where
  "gather index [] = ([], [])"
| "gather index ((url, Inl e) # rest) =
     (fst (gather (Suc index) rest),
      Log WARNING (MsgUnhandled url) # snd (gather (Suc index) rest))"
| "gather index ((url, Inr got) # rest) =
     ((case got of None \<Rightarrow> [] | Some profile \<Rightarrow> [profile]) @ fst (gather (Suc index) rest),
      (if index mod 100 = 0 then [Log INFO (MsgProcessed index)] else [])
        @ snd (gather (Suc index) rest))"

section \<open>The phone rule in the specification's words\<close>

text \<open>
  Deduplication in discovery order: the first occurrence of each value is kept, in
  place; later occurrences are dropped.
\<close>

fun dedup_in_order :: "'a list \<Rightarrow> 'a list" where
  "dedup_in_order [] = []"
| "dedup_in_order (x # xs) = x # dedup_in_order (filter (\<lambda>y. y \<noteq> x) xs)"

text \<open>The phone value a JSON value carries: a string that is not blank, stripped.\<close>

definition json_phone :: "json \<Rightarrow> string list" where
  "json_phone v =
     (case v of
        JStr s \<Rightarrow> (case clean_str s of None \<Rightarrow> [] | Some p \<Rightarrow> [p])
      | other \<Rightarrow> [])"

text \<open>
  The phone values of a structured-data block in discovery order: those of the
  top-level telephone field, then those of the nested contact points.
\<close>

definition schema_phone_values :: "(string \<times> json) list \<Rightarrow> string list" where
  "schema_phone_values item =
     concat (map json_phone (ensure_list (dict_get item ''telephone''))) @
     concat (map (\<lambda>c. case c of JObj contact \<Rightarrow> json_phone (dict_get contact ''telephone'')
                          | other \<Rightarrow> [])
                 (ensure_list (dict_get item ''contactPoint'')))"

text \<open>The telephone micro-attributes of a page, in document order.\<close>

definition micro_phone_values :: "soup \<Rightarrow> string list" where
  "micro_phone_values sp =
     concat (map (\<lambda>e. case clean_str (el_text e) of None \<Rightarrow> [] | Some p \<Rightarrow> [p])
                 (find_all_itemprop sp ''telephone''))"

text \<open>The two phone slots: the first value is the primary, the second the secondary.\<close>

definition phone_slots :: "string list \<Rightarrow> string option \<times> string option" where
  "phone_slots ps =
     (case ps of
        [] \<Rightarrow> (None, None)
      | [p] \<Rightarrow> (Some p, None)
      | p # q # others \<Rightarrow> (Some p, Some q))"

section \<open>The walker's result in the specification's words\<close>

text \<open>The profile URLs that the expansion of one seed discovers: those it returns.\<close>

definition seed_urls :: "nat \<Rightarrow> externals \<Rightarrow> web \<Rightarrow> string \<Rightarrow> string set" where
  "seed_urls fuel env web seed =
     (case expand_sitemap fuel env web seed None of
        Some (Inr found, seen, evs) \<Rightarrow> set found
      | other \<Rightarrow> {})"

section \<open>Worked inputs\<close>

text \<open>
  Three pages: \<open>doe\<close> carries the structured-data block of a person with name, phone and
  address; \<open>roe\<close> carries micro-attributes only; \<open>mix\<close> carries a block with one phone
  and no name, a second block with two phones, and micro-attributes.
\<close>

definition doe_block :: "(string \<times> json) list" where
  "doe_block =
     [(''@type'', JStr ''Person''), (''name'', JStr ''Jane Doe''),
      (''telephone'', JStr ''+49 1 2 3''),
      (''address'', JObj [(''streetAddress'', JStr ''Main St 1''),
                          (''postalCode'', JStr ''12345''),
                          (''addressLocality'', JStr ''Berlin'')])]"

definition mix_block1 :: "(string \<times> json) list" where
  "mix_block1 = [(''@type'', JStr ''person''), (''telephone'', JStr ''+49 1'')]"

definition mix_block2 :: "(string \<times> json) list" where
  "mix_block2 =
     [(''@type'', JArr [JStr ''Thing'', JStr ''LocalBusiness'']),
      (''telephone'', JArr [JStr ''+49 2'', JStr '' +49 2 '', JNull, JStr ''  '']),
      (''contactPoint'', JArr [JObj [(''telephone'', JStr ''+49 3''), (''email'', JStr ''m@x.de'')],
                               JStr ''skipped'',
                               JObj [(''telephone'', JStr ''+49 4'')]])]"

definition ld_script :: "string \<Rightarrow> element" where
  "ld_script body =
     \<lparr>el_name = ''script'', el_attrs = [(''type'', ''application/ld+json'')],
      el_string = Some body, el_text = body\<rparr>"

definition micro_tag :: "string \<Rightarrow> string \<Rightarrow> element" where
  "micro_tag prop body =
     \<lparr>el_name = ''span'', el_attrs = [(''itemprop'', prop)], el_string = Some body,
      el_text = body\<rparr>"

definition doe_soup :: soup where
  "doe_soup =
     [ld_script ''not json'', ld_script ''doe'',
      micro_tag ''name'' ''J. Doe'', micro_tag ''telephone'' ''+49 0'']"

definition roe_soup :: soup where
  "roe_soup = [micro_tag ''name'' ''John Roe'', micro_tag ''telephone'' ''+49 9 8 7'']"

definition mix_soup :: soup where
  "mix_soup =
     [ld_script ''mix1'', micro_tag ''name'' '' Max '', ld_script ''mix2'',
      micro_tag ''telephone'' ''+49 5'', micro_tag ''telephone'' ''+49 6'',
      \<lparr>el_name = ''a'', el_attrs = [(''href'', ''MAILTO: max@x.de '')], el_string = None,
       el_text = ''write''\<rparr>]"

definition solo_soup :: soup where
  "solo_soup =
     [ld_script ''mix1'', micro_tag ''telephone'' ''+49 5'', micro_tag ''telephone'' ''+49 5'',
      micro_tag ''telephone'' ''+49 6'', micro_tag ''telephone'' ''+49 7'']"

text \<open>
  A two-document sitemap pair that point at each other, a document that mixes
  namespaced and plain location tags, and one that is not XML.
\<close>

definition ns_loc :: "string \<Rightarrow> xml" where
  "ns_loc t = Element (SITEMAP_NS @ ''loc'') (Some t) []"

definition index_doc :: xml where
  "index_doc =
     Element (SITEMAP_NS @ ''sitemapindex'') None
       [Element (SITEMAP_NS @ ''sitemap'') None [ns_loc ''https://x.de/child.XML''],
        Element (SITEMAP_NS @ ''sitemap'') None [ns_loc ''https://x.de/index.xml''],
        Element (SITEMAP_NS @ ''sitemap'') None [ns_loc ''https://x.de/broken.xml'']]"

definition child_doc :: xml where
  "child_doc =
     Element ''urlset'' None
       [Element ''url'' None [Element ''loc'' (Some '' https://x.de/Vermoegensberater/b '') []],
        Element ''url'' None [Element ''loc'' (Some ''https://x.de/index.xml'') []],
        Element ''url'' None [Element ''loc'' (Some ''https://x.de/about'') []],
        Element ''url'' None [Element ''loc'' (Some ''https://x.de/vermoegensberater/a'') []],
        Element ''url'' None [Element ''loc'' (Some ''https://x.de/child.XML'') []],
        Element ''url'' None [Element ''loc'' (Some ''https://x.de/vermoegensberater/a'') []]]"

definition mixed_doc :: xml where
  "mixed_doc =
     Element (SITEMAP_NS @ ''urlset'') None
       [Element (SITEMAP_NS @ ''url'') None [ns_loc ''https://x.de/vermoegensberater/a''],
        Element ''url'' None [Element ''loc'' (Some ''https://x.de/vermoegensberater/b'') []]]"

definition demo_env :: externals where
  "demo_env =
     \<lparr>gzip_decompress = (\<lambda>content. if content = ''corrupt'' then Inl OSError else Inr content),
      decode = (\<lambda>enc content. Inr content),
      xml_fromstring = (\<lambda>body.
         if body = ''index'' then Some index_doc
         else if body = ''child'' then Some child_doc
         else if body = ''mixed'' then Some mixed_doc
         else None),
      json_loads = (\<lambda>body.
         if body = ''doe'' then Some (JObj doe_block)
         else if body = ''mix1'' then Some (JObj mix_block1)
         else if body = ''mix2'' then Some (JArr [JStr ''x'', JObj mix_block2])
         else None),
      html_parser = (\<lambda>html.
         if html = ''doe'' then doe_soup
         else if html = ''roe'' then roe_soup
         else if html = ''mix'' then mix_soup
         else if html = ''solo'' then solo_soup
         else [])\<rparr>"

definition ok_response :: "string \<Rightarrow> string \<Rightarrow> response" where
  "ok_response url body =
     \<lparr>resp_status_code = 200, resp_ok = True, resp_url = url, resp_headers = [],
      resp_encoding = None, resp_content = body, resp_text = body\<rparr>"

definition demo_web :: web where
  "demo_web =
     [(''https://x.de/index.xml'', Inr (ok_response ''https://x.de/index.xml'' ''index'')),
      (''https://x.de/child.XML'', Inr (ok_response ''https://x.de/child.XML'' ''child'')),
      (''https://x.de/broken.xml'', Inr (ok_response ''https://x.de/broken.xml'' ''<<'')),
      (''https://x.de/vermoegensberater/a'',
         Inr (ok_response ''https://x.de/vermoegensberater/a'' ''doe'')),
      (''https://x.de/vermoegensberater/e'',
         Inr (ok_response ''https://x.de/vermoegensberater/e'' ''nothing'')),
      (''https://x.de/vermoegensberater/gone'',
         Inr ((ok_response ''https://x.de/vermoegensberater/gone'' ''gone'')
                \<lparr>resp_status_code := 404, resp_ok := False\<rparr>)),
      (''https://x.de/vermoegensberater/slow'', Inl RequestException)]"

section \<open>Merging, field by field\<close>

lemma getattr_setattr: "getattr (setattr p g v) f = (if f = g then v else getattr p f)"
  by (cases g; cases f; simp)

lemma getattr_merge_step:
  "getattr (merge_step (g, v) b) f =
     (if f = g \<and> truthy v \<and> \<not> truthy (getattr b g) then v else getattr b f)"
  by (simp add: merge_step_def getattr_setattr)

lemma getattr_fold_merge_step:
  "distinct fs \<Longrightarrow>
   getattr (fold merge_step (map (\<lambda>f. (f, getattr e f)) fs) b) f =
     (if f \<in> set fs \<and> truthy (getattr e f) \<and> \<not> truthy (getattr b f)
      then getattr e f else getattr b f)"
proof (induction fs arbitrary: b)
  case Nil
  then show ?case by simp
next
  case (Cons g fs)
  then show ?case by (auto simp: getattr_merge_step)
qed

lemma all_fields: "f \<in> set profile_fields"
  by (cases f) (simp_all add: profile_fields_def)

lemma distinct_fields: "distinct profile_fields"
  by (simp add: profile_fields_def)

lemma getattr_merge_profiles:
  "getattr (merge_profiles base extra) f =
     (if truthy (getattr extra f) \<and> \<not> truthy (getattr base f)
      then getattr extra f else getattr base f)"
  unfolding merge_profiles_def asdict_def
  by (simp add: getattr_fold_merge_step distinct_fields all_fields)

lemma Profile_eqI:
  fixes p q :: Profile
  assumes h: "\<And>f. getattr p f = getattr q f"
  shows "p = q"
  using h [of F_name] h [of F_phone] h [of F_phone2] h [of F_zip_code]
    h [of F_city] h [of F_street] h [of F_email] h [of F_profile_url]
  by simp

lemma getattr_empty_profile: "getattr empty_profile f = None"
  by (cases f) (simp_all add: empty_profile_def)

lemma merge_keeps_truthy:
  "truthy (getattr base f) \<Longrightarrow> getattr (merge_profiles base extra) f = getattr base f"
  by (simp add: getattr_merge_profiles)

lemma foldl_merge_keeps_truthy:
  "truthy (getattr base f) \<Longrightarrow> getattr (foldl merge_profiles base extras) f = getattr base f"
proof (induction extras arbitrary: base)
  case Nil
  then show ?case by simp
next
  case (Cons x xs)
  have "getattr (merge_profiles base x) f = getattr base f"
    using Cons.prems by (rule merge_keeps_truthy)
  with Cons show ?case by simp
qed

lemma bind_exn_Inr_iff: "bind_exn m f = Inr y \<longleftrightarrow> (\<exists>x. m = Inr x \<and> f x = Inr y)"
  by (cases m) simp_all

lemma merge_schemas_keeps_truthy:
  "truthy (getattr base f) \<Longrightarrow> merge_schemas schemas base = Inr p \<Longrightarrow>
   getattr p f = getattr base f"
proof (induction schemas arbitrary: base)
  case Nil
  then show ?case by simp
next
  case (Cons s ss)
  from Cons.prems(2) obtain extra where
    e: "extract_from_schema s = Inr extra" and
    r: "merge_schemas ss (merge_profiles base extra) = Inr p"
    by (auto simp: bind_exn_Inr_iff)
  have k: "getattr (merge_profiles base extra) f = getattr base f"
    using Cons.prems(1) by (rule merge_keeps_truthy)
  with Cons.prems(1) have "truthy (getattr (merge_profiles base extra) f)" by simp
  from Cons.IH [OF this r] k show ?case by simp
qed

section \<open>Phone collection\<close>

lemma set_dedup_in_order: "set (dedup_in_order xs) = set xs"
  by (induction xs rule: dedup_in_order.induct) auto

lemma dedup_in_order_snoc:
  "dedup_in_order (xs @ [p]) =
     (if p \<in> set xs then dedup_in_order xs else dedup_in_order xs @ [p])"
  by (induction xs rule: dedup_in_order.induct) auto

lemma clean_str_nonempty: "clean_str s = Some p \<Longrightarrow> p \<noteq> []"
  by (auto simp: clean_str_def Let_def split: if_splits)

lemma add_phone_dedup:
  "ph = None \<or> (\<exists>s. ph = clean_str s) \<Longrightarrow>
   add_phone ph (dedup_in_order vals) =
     dedup_in_order (vals @ (case ph of None \<Rightarrow> [] | Some p \<Rightarrow> [p]))"
  by (auto simp: add_phone_def dedup_in_order_snoc set_dedup_in_order
      dest: clean_str_nonempty[OF sym] split: option.splits)

lemma clean_text_Inr:
  "clean_text v = Inr ph \<Longrightarrow>
   (ph = None \<or> (\<exists>s. ph = clean_str s)) \<and> json_phone v = (case ph of None \<Rightarrow> [] | Some p \<Rightarrow> [p])"
  by (cases v) (auto simp: json_phone_def split: option.splits)

lemma top_phones_dedup:
  "top_phones vs (dedup_in_order vals) = Inr t \<Longrightarrow>
   t = dedup_in_order (vals @ concat (map json_phone vs))"
proof (induction vs arbitrary: vals)
  case Nil
  then show ?case by simp
next
  case (Cons v vs)
  from Cons.prems obtain ph where
    c: "clean_text v = Inr ph" and
    r: "top_phones vs (add_phone ph (dedup_in_order vals)) = Inr t"
    by (auto simp: bind_exn_Inr_iff)
  from clean_text_Inr [OF c] have
    a: "add_phone ph (dedup_in_order vals) = dedup_in_order (vals @ json_phone v)"
    by (simp add: add_phone_dedup)
  from r a have "top_phones vs (dedup_in_order (vals @ json_phone v)) = Inr t" by simp
  from Cons.IH [OF this] show ?case by simp
qed

lemma contact_points_dedup:
  "contact_points cs (dedup_in_order vals, em0) = Inr (t, em) \<Longrightarrow>
   t = dedup_in_order
         (vals @ concat (map (\<lambda>c. case c of JObj contact \<Rightarrow> json_phone (dict_get contact ''telephone'')
                                    | other \<Rightarrow> []) cs))"
proof (induction cs arbitrary: vals em0)
  case Nil
  then show ?case by simp
next
  case (Cons c cs)
  show ?case
  proof (cases c)
    case (JObj contact)
    from Cons.prems JObj obtain ph e1 where
      c: "clean_text (dict_get contact ''telephone'') = Inr ph" and
      r: "contact_points cs
            (add_phone ph (dedup_in_order vals),
             if truthy e1 \<and> \<not> truthy em0 then e1 else em0) = Inr (t, em)"
      by (auto simp: bind_exn_Inr_iff)
    from clean_text_Inr [OF c] have
      a: "add_phone ph (dedup_in_order vals) =
            dedup_in_order (vals @ json_phone (dict_get contact ''telephone''))"
      by (simp add: add_phone_dedup)
    from r a Cons.IH [of "vals @ json_phone (dict_get contact ''telephone'')"
        "if truthy e1 \<and> \<not> truthy em0 then e1 else em0"]
    show ?thesis using JObj by simp
  qed (use Cons in simp_all)
qed

lemma bind_exn_InrE:
  assumes "bind_exn m f = Inr y"
  obtains x where "m = Inr x" and "f x = Inr y"
  using assms by (cases m) simp_all

lemma set_phones_slots:
  "phone x = None \<Longrightarrow> phone2 x = None \<Longrightarrow>
   (phone (set_phones tels x), phone2 (set_phones tels x)) = phone_slots tels"
  by (simp add: set_phones_def phone_slots_def split: list.splits)

lemma set_phones_other:
  "profile_url (set_phones tels x) = profile_url x"
  "name (set_phones tels x) = name x"
  "email (set_phones tels x) = email x"
  by (simp_all add: set_phones_def split: list.splits)

lemma schema_tail_keeps:
  assumes "bind_exn
       (case a of
          JObj address \<Rightarrow>
            bind_exn (clean_text (dict_get address ''streetAddress'')) (\<lambda>st.
            bind_exn (clean_text (dict_get address ''postalCode'')) (\<lambda>zp.
            bind_exn (clean_text (dict_get address ''addressLocality'')) (\<lambda>ct.
              Inr (result\<lparr>street := st, zip_code := zp, city := ct\<rparr>))))
        | other \<Rightarrow> Inr result) (\<lambda>result.
     if \<not> truthy (email result)
     then bind_exn (clean_text (dict_get item ''email'')) (\<lambda>em. Inr (result\<lparr>email := em\<rparr>))
     else Inr result) = Inr r"
  shows "phone r = phone result \<and> phone2 r = phone2 result \<and>
         profile_url r = profile_url result \<and> name r = name result"
  using assms by (cases a) (auto simp: bind_exn_Inr_iff split: if_splits)

lemma extract_from_schema_phones:
  assumes "extract_from_schema item = Inr r"
  shows "(phone r, phone2 r) = phone_slots (dedup_in_order (schema_phone_values item))"
    and "profile_url r = None"
proof -
  from assms [unfolded extract_from_schema_def] obtain nm where
    r1: "bind_exn (top_phones (ensure_list (dict_get item ''telephone'')) []) (\<lambda>telephones.
     bind_exn (contact_points (ensure_list (dict_get item ''contactPoint'')) (telephones, None))
       (\<lambda>(telephones, result_email).
     let result = set_phones telephones (empty_profile\<lparr>name := nm, email := result_email\<rparr>) in
     bind_exn
       (case dict_get item ''address'' of
          JObj address \<Rightarrow>
            bind_exn (clean_text (dict_get address ''streetAddress'')) (\<lambda>st.
            bind_exn (clean_text (dict_get address ''postalCode'')) (\<lambda>zp.
            bind_exn (clean_text (dict_get address ''addressLocality'')) (\<lambda>ct.
              Inr (result\<lparr>street := st, zip_code := zp, city := ct\<rparr>))))
        | other \<Rightarrow> Inr result) (\<lambda>result.
     if \<not> truthy (email result)
     then bind_exn (clean_text (dict_get item ''email'')) (\<lambda>em. Inr (result\<lparr>email := em\<rparr>))
     else Inr result))) = Inr r"
    by (rule bind_exn_InrE)
  from r1 obtain t0 where
    top: "top_phones (ensure_list (dict_get item ''telephone'')) [] = Inr t0" and
    r2: "bind_exn (contact_points (ensure_list (dict_get item ''contactPoint'')) (t0, None))
       (\<lambda>(telephones, result_email).
     let result = set_phones telephones (empty_profile\<lparr>name := nm, email := result_email\<rparr>) in
     bind_exn
       (case dict_get item ''address'' of
          JObj address \<Rightarrow>
            bind_exn (clean_text (dict_get address ''streetAddress'')) (\<lambda>st.
            bind_exn (clean_text (dict_get address ''postalCode'')) (\<lambda>zp.
            bind_exn (clean_text (dict_get address ''addressLocality'')) (\<lambda>ct.
              Inr (result\<lparr>street := st, zip_code := zp, city := ct\<rparr>))))
        | other \<Rightarrow> Inr result) (\<lambda>result.
     if \<not> truthy (email result)
     then bind_exn (clean_text (dict_get item ''email'')) (\<lambda>em. Inr (result\<lparr>email := em\<rparr>))
     else Inr result)) = Inr r"
    by (rule bind_exn_InrE)
  from r2 obtain st where
    cp0: "contact_points (ensure_list (dict_get item ''contactPoint'')) (t0, None) = Inr st" and
    r3: "(\<lambda>(telephones, result_email).
     let result = set_phones telephones (empty_profile\<lparr>name := nm, email := result_email\<rparr>) in
     bind_exn
       (case dict_get item ''address'' of
          JObj address \<Rightarrow>
            bind_exn (clean_text (dict_get address ''streetAddress'')) (\<lambda>st.
            bind_exn (clean_text (dict_get address ''postalCode'')) (\<lambda>zp.
            bind_exn (clean_text (dict_get address ''addressLocality'')) (\<lambda>ct.
              Inr (result\<lparr>street := st, zip_code := zp, city := ct\<rparr>))))
        | other \<Rightarrow> Inr result) (\<lambda>result.
     if \<not> truthy (email result)
     then bind_exn (clean_text (dict_get item ''email'')) (\<lambda>em. Inr (result\<lparr>email := em\<rparr>))
     else Inr result)) st = Inr r"
    by (rule bind_exn_InrE)
  obtain tels em where st: "st = (tels, em)" by (cases st)
  from cp0 st have
    cp: "contact_points (ensure_list (dict_get item ''contactPoint'')) (t0, None) = Inr (tels, em)"
    by simp
  from r3 st have
    tail: "bind_exn
       (case dict_get item ''address'' of
          JObj address \<Rightarrow>
            bind_exn (clean_text (dict_get address ''streetAddress'')) (\<lambda>st.
            bind_exn (clean_text (dict_get address ''postalCode'')) (\<lambda>zp.
            bind_exn (clean_text (dict_get address ''addressLocality'')) (\<lambda>ct.
              Inr ((set_phones tels (empty_profile\<lparr>name := nm, email := em\<rparr>))
                     \<lparr>street := st, zip_code := zp, city := ct\<rparr>))))
        | other \<Rightarrow> Inr (set_phones tels (empty_profile\<lparr>name := nm, email := em\<rparr>)))
       (\<lambda>result.
     if \<not> truthy (email result)
     then bind_exn (clean_text (dict_get item ''email'')) (\<lambda>em. Inr (result\<lparr>email := em\<rparr>))
     else Inr result) = Inr r"
    by (simp add: Let_def)
  from top_phones_dedup [of _ "[]" t0] top
  have t0: "t0 = dedup_in_order (concat (map json_phone (ensure_list (dict_get item ''telephone''))))"
    by simp
  from cp contact_points_dedup [of _ "concat (map json_phone (ensure_list (dict_get item ''telephone'')))" None tels em]
  have tels: "tels = dedup_in_order (schema_phone_values item)"
    unfolding t0 schema_phone_values_def by simp
  from schema_tail_keeps [OF tail]
  have k: "phone r = phone (set_phones tels (empty_profile\<lparr>name := nm, email := em\<rparr>))"
    "phone2 r = phone2 (set_phones tels (empty_profile\<lparr>name := nm, email := em\<rparr>))"
    "profile_url r = profile_url (set_phones tels (empty_profile\<lparr>name := nm, email := em\<rparr>))"
    by simp_all
  show "(phone r, phone2 r) = phone_slots (dedup_in_order (schema_phone_values item))"
    unfolding k tels [symmetric]
    by (rule set_phones_slots) (simp_all add: empty_profile_def)
  show "profile_url r = None"
    unfolding k by (simp add: set_phones_other empty_profile_def)
qed

lemma micro_phones_dedup:
  "micro_phones tags (dedup_in_order vals) =
     dedup_in_order
       (vals @ concat (map (\<lambda>e. case clean_str (el_text e) of None \<Rightarrow> [] | Some p \<Rightarrow> [p]) tags))"
proof (induction tags arbitrary: vals)
  case Nil
  then show ?case by simp
next
  case (Cons e es)
  have "add_phone (clean_str (el_text e)) (dedup_in_order vals) =
        dedup_in_order (vals @ (case clean_str (el_text e) of None \<Rightarrow> [] | Some p \<Rightarrow> [p]))"
    by (rule add_phone_dedup) auto
  with Cons.IH [of "vals @ (case clean_str (el_text e) of None \<Rightarrow> [] | Some p \<Rightarrow> [p])"]
  show ?case by simp
qed

lemma extract_microdata_phones:
  "(phone (extract_microdata sp), phone2 (extract_microdata sp)) =
     phone_slots (dedup_in_order (micro_phone_values sp))"
proof -
  have m: "micro_phones (find_all_itemprop sp ''telephone'') [] =
           dedup_in_order (micro_phone_values sp)"
    using micro_phones_dedup [of _ "[]"] by (simp add: micro_phone_values_def)
  have "(phone (set_phones (dedup_in_order (micro_phone_values sp))
                  (empty_profile\<lparr>name := itemprop_text sp ''name''\<rparr>)),
         phone2 (set_phones (dedup_in_order (micro_phone_values sp))
                  (empty_profile\<lparr>name := itemprop_text sp ''name''\<rparr>)))
        = phone_slots (dedup_in_order (micro_phone_values sp))"
    by (rule set_phones_slots) (simp_all add: empty_profile_def)
  then show ?thesis
    by (simp add: extract_microdata_def m)
qed

lemma extract_microdata_url: "profile_url (extract_microdata sp) = None"
  by (simp add: extract_microdata_def set_phones_other empty_profile_def)

lemma distinct_dedup_in_order: "distinct (dedup_in_order xs)"
  by (induction xs rule: dedup_in_order.induct) (auto simp: set_dedup_in_order)

lemma phone_slots_distinct:
  "distinct ps \<Longrightarrow> phone_slots ps = (a, Some b) \<Longrightarrow> a \<noteq> Some b"
  by (auto simp: phone_slots_def split: list.splits)

section \<open>The page parser\<close>

lemma profile_url_merge_none:
  "profile_url extra = None \<Longrightarrow> profile_url (merge_profiles base extra) = profile_url base"
  using getattr_merge_profiles [of base extra F_profile_url] by simp

lemma merge_schemas_profile_url:
  "merge_schemas schemas base = Inr p \<Longrightarrow> profile_url p = profile_url base"
proof (induction schemas arbitrary: base)
  case Nil
  then show ?case by simp
next
  case (Cons s ss)
  from Cons.prems obtain extra where
    e: "extract_from_schema s = Inr extra" and
    r: "merge_schemas ss (merge_profiles base extra) = Inr p"
    by (auto simp: bind_exn_Inr_iff)
  from extract_from_schema_phones(2) [OF e]
  have "profile_url (merge_profiles base extra) = profile_url base"
    by (rule profile_url_merge_none)
  with Cons.IH [OF r] show ?case by simp
qed

lemma parse_profile_page_cases:
  assumes "parse_profile_page env html url = Inr (p, scanned)"
  obtains t1 where
    "merge_schemas (iter_schema_candidates env (html_parser env html))
       (empty_profile\<lparr>profile_url := Some url\<rparr>) = Inr t1"
    and "scanned \<longleftrightarrow> \<not> truthy (name t1) \<or> \<not> truthy (phone t1)"
    and "p = (if scanned then merge_profiles t1 (extract_microdata (html_parser env html)) else t1)"
  using assms unfolding parse_profile_page_def Let_def
  by (auto simp: bind_exn_Inr_iff split: if_splits)

lemma parse_profile_page_url:
  assumes "parse_profile_page env html url = Inr (p, scanned)"
  shows "profile_url p = Some url"
proof -
  from assms obtain t1 where
    t: "merge_schemas (iter_schema_candidates env (html_parser env html))
       (empty_profile\<lparr>profile_url := Some url\<rparr>) = Inr t1" and
    p: "p = (if scanned then merge_profiles t1 (extract_microdata (html_parser env html)) else t1)"
    by (rule parse_profile_page_cases)
  from merge_schemas_profile_url [OF t] have "profile_url t1 = Some url"
    by simp
  with p show ?thesis
    by (simp add: profile_url_merge_none extract_microdata_url)
qed

section \<open>The sitemap walker\<close>

lemma fetches_append: "fetches (a @ b) = fetches a @ fetches b"
  by (induction a rule: fetches.induct) simp_all

lemma fetches_extract_loc_values: "fetches (snd (extract_loc_values env body)) = []"
  by (simp add: extract_loc_values_def Let_def split: option.splits)

lemma after_events_Some:
  "after_events evs w = Some (r, s, out) \<longleftrightarrow> (\<exists>later. w = Some (r, s, later) \<and> out = evs @ later)"
  by (cases w) (auto simp: after_events_def)

text \<open>
  What a terminated walk guarantees: the visited set only grows, and the URLs it fetched
  are pairwise different, were not visited before, and are visited afterwards.
\<close>

lemma loop_locs_total:
  assumes fin: "finite K"
    and rec: "\<And>loc s. card (K - s) < n \<Longrightarrow>
       \<exists>r s' evs. recurse loc s = Some (r, s', evs) \<and> s \<subseteq> s' \<and>
         distinct (fetches evs) \<and> set (fetches evs) \<inter> s = {} \<and> set (fetches evs) \<subseteq> s'"
  shows "card (K - s) < n \<Longrightarrow> s \<noteq> {} \<Longrightarrow>
     \<exists>r s' evs. loop_locs recurse locs s acc = Some (r, s', evs) \<and> s \<subseteq> s' \<and>
       distinct (fetches evs) \<and> set (fetches evs) \<inter> s = {} \<and> set (fetches evs) \<subseteq> s'"
proof (induction locs arbitrary: s acc)
  case Nil
  then show ?case by simp
next
  case (Cons loc locs)
  show ?case
  proof (cases "loc \<noteq> [] \<and> (endswith (lower loc) ''.xml'' \<or> endswith (lower loc) ''.xml.gz'')")
    case False
    with Cons.IH [OF Cons.prems] show ?thesis by auto
  next
    case True
    from rec [OF Cons.prems(1), of loc] obtain r1 s1 e1 where
      c: "recurse loc s = Some (r1, s1, e1)" and sub: "s \<subseteq> s1" and
      d1: "distinct (fetches e1)" and n1: "set (fetches e1) \<inter> s = {}" and
      i1: "set (fetches e1) \<subseteq> s1"
      by blast
    show ?thesis
    proof (cases r1)
      case (Inl e)
      with True c Cons.prems sub d1 n1 i1 show ?thesis by simp
    next
      case (Inr found)
      have "card (K - s1) \<le> card (K - s)"
        using fin sub by (intro card_mono) auto
      with Cons.prems have k: "card (K - s1) < n" by simp
      from sub Cons.prems have ne: "s1 \<noteq> {}" by auto
      from Cons.IH [OF k ne, of "acc @ found"] obtain r2 s2 e2 where
        l: "loop_locs recurse locs s1 (acc @ found) = Some (r2, s2, e2)" and sub2: "s1 \<subseteq> s2" and
        d2: "distinct (fetches e2)" and n2: "set (fetches e2) \<inter> s1 = {}" and
        i2: "set (fetches e2) \<subseteq> s2"
        by blast
      have res: "loop_locs recurse (loc # locs) s acc = Some (r2, s2, e1 @ e2)"
        using True c Inr Cons.prems(2) l by (simp add: after_events_def)
      have "distinct (fetches (e1 @ e2))"
        using d1 d2 n2 i1 by (auto simp: fetches_append)
      moreover have "set (fetches (e1 @ e2)) \<inter> s = {}"
        using n1 n2 sub by (auto simp: fetches_append)
      moreover have "set (fetches (e1 @ e2)) \<subseteq> s2"
        using i1 i2 sub2 by (auto simp: fetches_append)
      ultimately show ?thesis using res sub sub2 by blast
    qed
  qed
qed

lemma fetch_ok_in_web:
  "bind_exn (fetch_response web url) f = Inr x \<Longrightarrow> url \<in> fst ` set web"
  by (auto simp: fetch_response_def bind_exn_Inr_iff split: option.splits dest: map_of_SomeD
      intro: rev_image_eqI)

lemma expand_sitemap_total:
  "card (fst ` set web - s) < n \<Longrightarrow>
     \<exists>r s' evs. expand_sitemap n env web url (Some s) = Some (r, s', evs) \<and> s \<subseteq> s' \<and>
       distinct (fetches evs) \<and> set (fetches evs) \<inter> s = {} \<and> set (fetches evs) \<subseteq> s'"
proof (induction n arbitrary: url s)
  case 0
  then show ?case by simp
next
  case (Suc n)
  show ?case
  proof (cases "url \<in> s")
    case True
    then show ?thesis by simp
  next
    case False
    show ?thesis
    proof (cases "bind_exn (fetch_response web url) (read_sitemap_content env)")
      case (Inl e)
      with False show ?thesis by auto
    next
      case (Inr body)
      from fetch_ok_in_web [OF Inr] have inweb: "url \<in> fst ` set web" .
      have "card (fst ` set web - insert url s) < card (fst ` set web - s)"
        using inweb False by (intro psubset_card_mono) auto
      with Suc.prems have k: "card (fst ` set web - insert url s) < n" by simp
      have "\<exists>r s' evs. loop_locs (\<lambda>loc s. expand_sitemap n env web loc (Some s))
               (fst (extract_loc_values env body)) (insert url s) [] = Some (r, s', evs) \<and>
             insert url s \<subseteq> s' \<and> distinct (fetches evs) \<and>
             set (fetches evs) \<inter> insert url s = {} \<and> set (fetches evs) \<subseteq> s'"
        by (rule loop_locs_total [where K = "fst ` set web" and n = n])
           (use Suc.IH k in simp_all)
      then obtain r s' evs where
        l: "loop_locs (\<lambda>loc s. expand_sitemap n env web loc (Some s))
               (fst (extract_loc_values env body)) (insert url s) [] = Some (r, s', evs)" and
        sub: "insert url s \<subseteq> s'" and d: "distinct (fetches evs)" and
        n: "set (fetches evs) \<inter> insert url s = {}" and i: "set (fetches evs) \<subseteq> s'"
        by blast
      have res: "expand_sitemap (Suc n) env web url (Some s) =
          Some (r, s', [Log DEBUG (MsgDownloading url), Fetch url] @
                       snd (extract_loc_values env body) @ evs)"
        using False Inr l by (simp add: after_events_def)
      have f: "fetches ([Log DEBUG (MsgDownloading url), Fetch url] @
                       snd (extract_loc_values env body) @ evs) = url # fetches evs"
        by (simp add: fetches_append fetches_extract_loc_values)
      from sub d n i False show ?thesis
        unfolding res by (auto simp: fetches_append fetches_extract_loc_values)
    qed
  qed
qed

lemma expand_sitemap_None_arg:
  "expand_sitemap n env web url None = expand_sitemap n env web url (Some {})"
  by (cases n) simp_all

lemma card_web_bound: "card (fst ` set web - s) < Suc (length web)"
proof -
  have "card (fst ` set web - s) \<le> card (fst ` set web)"
    by (intro card_mono) auto
  also have "\<dots> \<le> card (set web)" by (rule card_image_le) simp
  also have "\<dots> \<le> length web" by (rule card_length)
  finally show ?thesis by simp
qed

text \<open>More fuel does not change a result.\<close>

lemma loop_locs_mono:
  assumes "\<And>loc s w. r1 loc s = Some w \<Longrightarrow> r2 loc s = Some w"
  shows "loop_locs r1 locs s acc = Some w \<Longrightarrow> loop_locs r2 locs s acc = Some w"
proof (induction locs arbitrary: s acc w)
  case Nil
  then show ?case by simp
next
  case (Cons loc locs)
  show ?case
  proof (cases "loc \<noteq> [] \<and> (endswith (lower loc) ''.xml'' \<or> endswith (lower loc) ''.xml.gz'')")
    case False
    then have "\<exists>acc'. \<forall>r. loop_locs r (loc # locs) s acc = loop_locs r locs s acc'"
      by auto
    then obtain acc' where
      eq: "\<And>r. loop_locs r (loc # locs) s acc = loop_locs r locs s acc'"
      by blast
    from Cons.prems have "loop_locs r1 locs s acc' = Some w" by (simp only: eq)
    from Cons.IH [OF this] show ?thesis by (simp only: eq)
  next
    case True
    from True Cons.prems obtain r s1 e1 where c: "r1 loc s = Some (r, s1, e1)"
      by (cases "r1 loc s") auto
    from assms [OF c] have c2: "r2 loc s = Some (r, s1, e1)" .
    show ?thesis
    proof (cases r)
      case (Inl e)
      with True c c2 Cons.prems show ?thesis by simp
    next
      case (Inr found)
      from True c Inr Cons.prems obtain later where
        l: "loop_locs r1 locs (if s = {} then s else s1) (acc @ found) = Some later" and
        w: "w = (case later of (r, seen, ev) \<Rightarrow> (r, seen, e1 @ ev))"
        by (auto simp: after_events_def)
      from Cons.IH [OF l] True c2 Inr w show ?thesis
        by (simp add: after_events_def)
    qed
  qed
qed

lemma expand_sitemap_Suc:
  "expand_sitemap n env web url sa = Some w \<Longrightarrow> expand_sitemap (Suc n) env web url sa = Some w"
proof (induction n arbitrary: url sa w)
  case 0
  then show ?case by simp
next
  case (Suc n)
  have m: "loop_locs (\<lambda>loc s. expand_sitemap (Suc n) env web loc (Some s)) locs s acc = Some v"
    if l: "loop_locs (\<lambda>loc s. expand_sitemap n env web loc (Some s)) locs s acc = Some v"
    for locs s acc v
    using l
    by (rule loop_locs_mono [where ?r1.0 = "\<lambda>loc s. expand_sitemap n env web loc (Some s)"
          and ?r2.0 = "\<lambda>loc s. expand_sitemap (Suc n) env web loc (Some s)", rotated])
       (rule Suc.IH)
  let ?seen = "case sa of None \<Rightarrow> {} | Some s \<Rightarrow> s"
  note prem = Suc.prems [unfolded expand_sitemap.simps(2) [of n]]
  show ?case
    unfolding expand_sitemap.simps(2) [of "Suc n"]
  proof (cases "url \<in> ?seen")
    case True
    with prem show "(let seen = ?seen in
        if url \<in> seen then Some (Inr [], seen, [])
        else let seen = insert url seen; evs = [Log DEBUG (MsgDownloading url), Fetch url]
             in case bind_exn (fetch_response web url) (read_sitemap_content env) of
                  Inl e \<Rightarrow> Some (Inl e, seen, evs)
                | Inr xml_text \<Rightarrow>
                    after_events (evs @ snd (extract_loc_values env xml_text))
                      (loop_locs (\<lambda>loc s. expand_sitemap (Suc n) env web loc (Some s))
                         (fst (extract_loc_values env xml_text)) seen [])) = Some w"
      by (simp add: Let_def del: expand_sitemap.simps)
  next
    case False
    show "(let seen = ?seen in
        if url \<in> seen then Some (Inr [], seen, [])
        else let seen = insert url seen; evs = [Log DEBUG (MsgDownloading url), Fetch url]
             in case bind_exn (fetch_response web url) (read_sitemap_content env) of
                  Inl e \<Rightarrow> Some (Inl e, seen, evs)
                | Inr xml_text \<Rightarrow>
                    after_events (evs @ snd (extract_loc_values env xml_text))
                      (loop_locs (\<lambda>loc s. expand_sitemap (Suc n) env web loc (Some s))
                         (fst (extract_loc_values env xml_text)) seen [])) = Some w"
    proof (cases "bind_exn (fetch_response web url) (read_sitemap_content env)")
      case (Inl e)
      with False prem show ?thesis by (simp add: Let_def del: expand_sitemap.simps)
    next
      case (Inr body)
      from False Inr prem obtain later where
        l: "loop_locs (\<lambda>loc s. expand_sitemap n env web loc (Some s))
              (fst (extract_loc_values env body)) (insert url ?seen) [] = Some later" and
        w: "w = (case later of (r, seen, ev) \<Rightarrow>
                  (r, seen, ([Log DEBUG (MsgDownloading url), Fetch url] @
                             snd (extract_loc_values env body)) @ ev))"
        by (auto simp: Let_def after_events_def simp del: expand_sitemap.simps)
      from m [OF l] False Inr w show ?thesis
        by (simp add: Let_def after_events_def del: expand_sitemap.simps)
    qed
  qed
qed

lemma expand_sitemap_more_fuel:
  "expand_sitemap n env web url sa = Some w \<Longrightarrow> n \<le> m \<Longrightarrow>
   expand_sitemap m env web url sa = Some w"
proof (induction m)
  case 0
  then show ?case by simp
next
  case (Suc m)
  show ?case
  proof (cases "n = Suc m")
    case True
    with Suc.prems show ?thesis by simp
  next
    case False
    with Suc.prems have "n \<le> m" by simp
    from Suc.IH [OF Suc.prems(1) this] show ?thesis by (rule expand_sitemap_Suc)
  qed
qed

lemma extract_loc_values_ns:
  "xml_fromstring env body = Some tree \<Longrightarrow> findall tree (SITEMAP_NS @ ''loc'') \<noteq> [] \<Longrightarrow>
   fst (extract_loc_values env body) =
     concat (map loc_text (findall tree (SITEMAP_NS @ ''loc'')))"
  by (simp add: extract_loc_values_def Let_def)

lemma extract_loc_values_plain:
  "xml_fromstring env body = Some tree \<Longrightarrow> findall tree (SITEMAP_NS @ ''loc'') = [] \<Longrightarrow>
   fst (extract_loc_values env body) = concat (map loc_text (findall tree ''loc''))"
  by (simp add: extract_loc_values_def Let_def)

lemma loc_text_iff:
  "v \<in> set (loc_text e) \<longleftrightarrow> (\<exists>t. elem_text e = Some t \<and> t \<noteq> [] \<and> v = strip t)"
  by (cases "elem_text e") (auto simp: loc_text_def)

lemma loc_values_iff:
  "v \<in> set (concat (map loc_text (findall tree tg))) \<longleftrightarrow>
     (\<exists>e t. e \<in> set (descendants tree) \<and> elem_tag e = tg \<and> elem_text e = Some t \<and>
            t \<noteq> [] \<and> v = strip t)"
  by (auto simp: findall_def loc_text_iff)

lemma findall_member:
  "e \<in> set (descendants tree) \<Longrightarrow> elem_tag e = tg \<Longrightarrow> elem_text e = Some t \<Longrightarrow> t \<noteq> [] \<Longrightarrow>
   strip t \<in> set (concat (map loc_text (findall tree tg))) \<and> findall tree tg \<noteq> []"
  unfolding loc_values_iff by (auto simp: findall_def filter_empty_conv)

lemma expand_sitemap_top:
  assumes "length web < fuel"
  shows "\<exists>r seen evs. expand_sitemap fuel env web url None = Some (r, seen, evs) \<and>
           expand_sitemap (Suc (length web)) env web url None = Some (r, seen, evs) \<and>
           distinct (fetches evs) \<and> set (fetches evs) \<subseteq> seen"
proof -
  from expand_sitemap_total [OF card_web_bound [of web "{}"], of env url]
  obtain r s' evs where
    e: "expand_sitemap (Suc (length web)) env web url (Some {}) = Some (r, s', evs)" and
    d: "distinct (fetches evs)" and i: "set (fetches evs) \<subseteq> s'"
    by blast
  from e have e': "expand_sitemap (Suc (length web)) env web url None = Some (r, s', evs)"
    by (simp only: expand_sitemap_None_arg)
  from assms have "Suc (length web) \<le> fuel" by simp
  from expand_sitemap_more_fuel [OF e' this] e' d i show ?thesis by blast
qed

lemma seed_urls_fuel:
  "length web < fuel \<Longrightarrow> seed_urls fuel env web seed = seed_urls (Suc (length web)) env web seed"
  using expand_sitemap_top [of web fuel env seed] by (auto simp: seed_urls_def)

lemma finite_seed_urls: "finite (seed_urls fuel env web seed)"
  by (auto simp: seed_urls_def split: option.splits sum.splits)

lemma collect_loop_union:
  assumes "length web < fuel"
  shows "\<exists>evs. collect_loop fuel env web seeds U =
           Some (U \<union> (\<Union>seed \<in> set seeds. seed_urls fuel env web seed), evs)"
proof (induction seeds arbitrary: U)
  case Nil
  then show ?case by simp
next
  case (Cons seed seeds)
  from expand_sitemap_top [OF assms, of env seed] obtain r seen evs where
    e: "expand_sitemap fuel env web seed None = Some (r, seen, evs)"
    by blast
  show ?case
  proof (cases r)
    case (Inl x)
    with e have s: "seed_urls fuel env web seed = {}" by (simp add: seed_urls_def)
    from Cons.IH [of U] obtain later where
      "collect_loop fuel env web seeds U =
         Some (U \<union> (\<Union>seed \<in> set seeds. seed_urls fuel env web seed), later)"
      by blast
    with e Inl s show ?thesis by simp
  next
    case (Inr found)
    with e have s: "seed_urls fuel env web seed = set found" by (simp add: seed_urls_def)
    from Cons.IH [of "U \<union> set found"] obtain later where
      "collect_loop fuel env web seeds (U \<union> set found) =
         Some (U \<union> set found \<union> (\<Union>seed \<in> set seeds. seed_urls fuel env web seed), later)"
      by blast
    with e Inr s show ?thesis by (simp add: Un_assoc)
  qed
qed

lemma collect_loop_fuel:
  assumes "length web < fuel"
  shows "collect_loop fuel env web seeds U = collect_loop (Suc (length web)) env web seeds U"
proof (induction seeds arbitrary: U)
  case Nil
  then show ?case by simp
next
  case (Cons seed seeds)
  from expand_sitemap_top [OF assms, of env seed] obtain r seen evs where
    "expand_sitemap fuel env web seed None = Some (r, seen, evs)"
    "expand_sitemap (Suc (length web)) env web seed None = Some (r, seen, evs)"
    by blast
  with Cons.IH show ?case
    by (cases r) (simp_all del: expand_sitemap.simps)
qed

section \<open>Evaluating the worked inputs\<close>

lemmas text_eval = strip_def is_space_def lower_def lower_char_def startswith_def endswith_def
  clean_str_def Let_def

lemmas schema_eval = extract_from_schema_def dict_get_def add_phone_def set_phones_def
  empty_profile_def

lemmas micro_eval = extract_microdata_def find_all_itemprop_def find_itemprop_def
  itemprop_text_def attr_def mail_link_def is_mailto_def after_colon_def micro_tag_def
  ld_script_def

lemmas cand_eval = iter_schema_candidates_def payload_items_def type_matches_def
  schema_types_def script_text_def attr_def ld_script_def micro_tag_def dict_get_def

lemmas merge_eval = merge_profiles_def asdict_def profile_fields_def merge_step_def
  empty_profile_def

lemma demo_parser:
  "html_parser demo_env ''doe'' = doe_soup"
  "html_parser demo_env ''roe'' = roe_soup"
  "html_parser demo_env ''mix'' = mix_soup"
  "html_parser demo_env ''solo'' = solo_soup"
  "html_parser demo_env ''nothing'' = []"
  by (simp_all add: demo_env_def)

lemma demo_candidates:
  "iter_schema_candidates demo_env doe_soup = [doe_block]"
  "iter_schema_candidates demo_env roe_soup = []"
  "iter_schema_candidates demo_env mix_soup = [mix_block1, mix_block2]"
  "iter_schema_candidates demo_env solo_soup = [mix_block1]"
  "iter_schema_candidates demo_env [] = []"
  by (simp_all add: cand_eval demo_env_def doe_soup_def roe_soup_def mix_soup_def solo_soup_def
      doe_block_def mix_block1_def mix_block2_def lower_def lower_char_def)

lemma doe_extract:
  "extract_from_schema doe_block =
     Inr \<lparr>name = Some ''Jane Doe'', phone = Some ''+49 1 2 3'', phone2 = None,
          zip_code = Some ''12345'', city = Some ''Berlin'', street = Some ''Main St 1'',
          email = None, profile_url = None\<rparr>"
  by (simp add: doe_block_def schema_eval text_eval)

lemma mix1_extract:
  "extract_from_schema mix_block1 =
     Inr \<lparr>name = None, phone = Some ''+49 1'', phone2 = None, zip_code = None, city = None,
          street = None, email = None, profile_url = None\<rparr>"
  by (simp add: mix_block1_def schema_eval text_eval)

lemma mix2_extract:
  "extract_from_schema mix_block2 =
     Inr \<lparr>name = None, phone = Some ''+49 2'', phone2 = Some ''+49 3'', zip_code = None,
          city = None, street = None, email = Some ''m@x.de'', profile_url = None\<rparr>"
  by (simp add: mix_block2_def schema_eval text_eval)

lemma roe_micro:
  "extract_microdata roe_soup =
     \<lparr>name = Some ''John Roe'', phone = Some ''+49 9 8 7'', phone2 = None, zip_code = None,
      city = None, street = None, email = None, profile_url = None\<rparr>"
  by (simp add: roe_soup_def micro_eval schema_eval text_eval)

lemma mix_micro:
  "extract_microdata mix_soup =
     \<lparr>name = Some ''Max'', phone = Some ''+49 5'', phone2 = Some ''+49 6'', zip_code = None,
      city = None, street = None, email = Some ''max@x.de'', profile_url = None\<rparr>"
  by (simp add: mix_soup_def micro_eval schema_eval text_eval)

lemma solo_micro:
  "extract_microdata solo_soup =
     \<lparr>name = None, phone = Some ''+49 5'', phone2 = Some ''+49 6'', zip_code = None,
      city = None, street = None, email = None, profile_url = None\<rparr>"
  by (simp add: solo_soup_def micro_eval schema_eval text_eval)

lemma empty_micro: "extract_microdata [] = empty_profile"
  by (simp add: micro_eval schema_eval)

lemma doe_merge:
  "merge_profiles
     \<lparr>name = None, phone = None, phone2 = None, zip_code = None, city = None,
      street = None, email = None, profile_url = Some u\<rparr>
     \<lparr>name = Some ''Jane Doe'', phone = Some ''+49 1 2 3'', phone2 = None,
      zip_code = Some ''12345'', city = Some ''Berlin'', street = Some ''Main St 1'',
      email = None, profile_url = None\<rparr> =
   \<lparr>name = Some ''Jane Doe'', phone = Some ''+49 1 2 3'', phone2 = None,
    zip_code = Some ''12345'', city = Some ''Berlin'', street = Some ''Main St 1'',
    email = None, profile_url = Some u\<rparr>"
  by (simp add: merge_eval)

lemma roe_merge:
  "merge_profiles
     \<lparr>name = None, phone = None, phone2 = None, zip_code = None, city = None,
      street = None, email = None, profile_url = Some u\<rparr>
     \<lparr>name = Some ''John Roe'', phone = Some ''+49 9 8 7'', phone2 = None, zip_code = None,
      city = None, street = None, email = None, profile_url = None\<rparr> =
   \<lparr>name = Some ''John Roe'', phone = Some ''+49 9 8 7'', phone2 = None, zip_code = None,
    city = None, street = None, email = None, profile_url = Some u\<rparr>"
  by (simp add: merge_eval)

lemma mix_merge1:
  "merge_profiles
     \<lparr>name = None, phone = None, phone2 = None, zip_code = None, city = None,
      street = None, email = None, profile_url = Some u\<rparr>
     \<lparr>name = None, phone = Some ''+49 1'', phone2 = None, zip_code = None, city = None,
      street = None, email = None, profile_url = None\<rparr> =
   \<lparr>name = None, phone = Some ''+49 1'', phone2 = None, zip_code = None, city = None,
    street = None, email = None, profile_url = Some u\<rparr>"
  by (simp add: merge_eval)

lemma mix_merge2:
  "merge_profiles
     \<lparr>name = None, phone = Some ''+49 1'', phone2 = None, zip_code = None, city = None,
      street = None, email = None, profile_url = Some u\<rparr>
     \<lparr>name = None, phone = Some ''+49 2'', phone2 = Some ''+49 3'', zip_code = None,
      city = None, street = None, email = Some ''m@x.de'', profile_url = None\<rparr> =
   \<lparr>name = None, phone = Some ''+49 1'', phone2 = Some ''+49 3'', zip_code = None,
    city = None, street = None, email = Some ''m@x.de'', profile_url = Some u\<rparr>"
  by (simp add: merge_eval)

lemma mix_merge3:
  "merge_profiles
     \<lparr>name = None, phone = Some ''+49 1'', phone2 = Some ''+49 3'', zip_code = None,
      city = None, street = None, email = Some ''m@x.de'', profile_url = Some u\<rparr>
     \<lparr>name = Some ''Max'', phone = Some ''+49 5'', phone2 = Some ''+49 6'', zip_code = None,
      city = None, street = None, email = Some ''max@x.de'', profile_url = None\<rparr> =
   \<lparr>name = Some ''Max'', phone = Some ''+49 1'', phone2 = Some ''+49 3'', zip_code = None,
    city = None, street = None, email = Some ''m@x.de'', profile_url = Some u\<rparr>"
  by (simp add: merge_eval)

lemma solo_merge:
  "merge_profiles
     \<lparr>name = None, phone = Some ''+49 1'', phone2 = None, zip_code = None, city = None,
      street = None, email = None, profile_url = Some u\<rparr>
     \<lparr>name = None, phone = Some ''+49 5'', phone2 = Some ''+49 6'', zip_code = None,
      city = None, street = None, email = None, profile_url = None\<rparr> =
   \<lparr>name = None, phone = Some ''+49 1'', phone2 = Some ''+49 6'', zip_code = None,
    city = None, street = None, email = None, profile_url = Some u\<rparr>"
  by (simp add: merge_eval)

lemma nothing_merge:
  "merge_profiles
     \<lparr>name = None, phone = None, phone2 = None, zip_code = None, city = None,
      street = None, email = None, profile_url = Some u\<rparr>
     \<lparr>name = None, phone = None, phone2 = None, zip_code = None, city = None,
      street = None, email = None, profile_url = None\<rparr> =
   \<lparr>name = None, phone = None, phone2 = None, zip_code = None, city = None,
    street = None, email = None, profile_url = Some u\<rparr>"
  by (simp add: merge_eval)

lemma doe_page:
  "parse_profile_page demo_env ''doe'' u =
     Inr (\<lparr>name = Some ''Jane Doe'', phone = Some ''+49 1 2 3'', phone2 = None,
           zip_code = Some ''12345'', city = Some ''Berlin'', street = Some ''Main St 1'',
           email = None, profile_url = Some u\<rparr>, False)"
  by (simp add: parse_profile_page_def demo_parser demo_candidates doe_extract doe_merge
      empty_profile_def)

lemma roe_page:
  "parse_profile_page demo_env ''roe'' u =
     Inr (\<lparr>name = Some ''John Roe'', phone = Some ''+49 9 8 7'', phone2 = None,
           zip_code = None, city = None, street = None, email = None,
           profile_url = Some u\<rparr>, True)"
  by (simp add: parse_profile_page_def demo_parser demo_candidates roe_micro roe_merge
      empty_profile_def)

lemma mix_page:
  "parse_profile_page demo_env ''mix'' u =
     Inr (\<lparr>name = Some ''Max'', phone = Some ''+49 1'', phone2 = Some ''+49 3'',
           zip_code = None, city = None, street = None, email = Some ''m@x.de'',
           profile_url = Some u\<rparr>, True)"
  by (simp add: parse_profile_page_def demo_parser demo_candidates mix1_extract mix2_extract
      mix_micro mix_merge1 mix_merge2 mix_merge3 empty_profile_def)

lemma solo_page:
  "parse_profile_page demo_env ''solo'' u =
     Inr (\<lparr>name = None, phone = Some ''+49 1'', phone2 = Some ''+49 6'',
           zip_code = None, city = None, street = None, email = None,
           profile_url = Some u\<rparr>, True)"
  by (simp add: parse_profile_page_def demo_parser demo_candidates mix1_extract solo_micro
      mix_merge1 solo_merge empty_profile_def)

lemma nothing_page:
  "parse_profile_page demo_env ''nothing'' u =
     Inr (\<lparr>name = None, phone = None, phone2 = None, zip_code = None, city = None,
           street = None, email = None, profile_url = Some u\<rparr>, True)"
  by (simp add: parse_profile_page_def demo_parser demo_candidates empty_micro nothing_merge
      empty_profile_def)

section \<open>The worker\<close>





lemma fetch_profile_parsed:
  "fetch_response web url = Inr resp \<Longrightarrow>
   parse_profile_page env (resp_text resp) url = Inr (p, scanned) \<Longrightarrow>
   fetch_profile env web url delay_range sleep_time =
     ((if snd delay_range > 0 then [Log DEBUG (MsgWait sleep_time url), Sleep sleep_time] else [])
        @ [Fetch url]
        @ (if \<not> (truthy (name p) \<or> truthy (phone p) \<or> truthy (email p))
           then [Log DEBUG (MsgEmpty url)] else []),
      Inr (Some p))"
  by (cases delay_range) (simp add: fetch_profile_def)

lemma demo_fetch:
  "fetch_response demo_web ''https://x.de/vermoegensberater/e'' =
     Inr (ok_response ''https://x.de/vermoegensberater/e'' ''nothing'')"
  "fetch_response demo_web ''https://x.de/vermoegensberater/a'' =
     Inr (ok_response ''https://x.de/vermoegensberater/a'' ''doe'')"
  "fetch_response demo_web ''https://x.de/vermoegensberater/gone'' =
     Inl (HTTPError (Some ((ok_response ''https://x.de/vermoegensberater/gone'' ''gone'')
                \<lparr>resp_status_code := 404, resp_ok := False\<rparr>)))"
  "fetch_response demo_web ''https://x.de/vermoegensberater/slow'' = Inl RequestException"
  "fetch_response demo_web ''https://x.de/vermoegensberater/none'' = Inl RequestException"
  by (simp_all add: fetch_response_def demo_web_def raise_for_status_def ok_response_def)

section \<open>Claims on merging\<close>

text \<open>
  C9. Merge is idempotent: merging a record with the empty candidate (all fields unset)
  leaves every field unchanged, and merging a record with a copy of itself leaves every
  field unchanged.
\<close>

theorem merge_profiles_idempotent:
  "merge_profiles r empty_profile = r \<and> merge_profiles r r = r"
proof
  show "merge_profiles r empty_profile = r"
    by (rule Profile_eqI) (simp add: getattr_merge_profiles getattr_empty_profile)
  show "merge_profiles r r = r"
    by (rule Profile_eqI) (simp add: getattr_merge_profiles)
qed

theorem merge_profiles_idempotent_witness:
  "merge_profiles
     \<lparr>name = Some ''Jane Doe'', phone = Some ''+49 1 2 3'', phone2 = None,
      zip_code = Some ''12345'', city = Some [], street = None, email = None,
      profile_url = Some ''https://x/a''\<rparr>
     empty_profile
   = \<lparr>name = Some ''Jane Doe'', phone = Some ''+49 1 2 3'', phone2 = None,
      zip_code = Some ''12345'', city = Some [], street = None, email = None,
      profile_url = Some ''https://x/a''\<rparr>"
  using merge_profiles_idempotent
    [of "\<lparr>name = Some ''Jane Doe'', phone = Some ''+49 1 2 3'', phone2 = None,
      zip_code = Some ''12345'', city = Some [], street = None, email = None,
      profile_url = Some ''https://x/a''\<rparr>"]
  by simp

text \<open>
  C1. For every record and every candidate, merging sets a field of the record from
  the candidate only if the record's field is empty or unset and the candidate's value
  is non-empty. Consequently a field once set to a non-empty value is not overwritten
  by any later merge (any sequence of merges, later structured-data blocks, the
  micro-attribute fallback), and the source URL given at record creation is the source
  URL of the record the page parser returns.
\<close>

theorem merge_fills_only_empty_fields:
  "(getattr (merge_profiles base extra) f \<noteq> getattr base f \<longrightarrow>
      \<not> truthy (getattr base f) \<and> truthy (getattr extra f) \<and>
      getattr (merge_profiles base extra) f = getattr extra f) \<and>
   (truthy (getattr base f) \<longrightarrow>
      getattr (foldl merge_profiles base extras) f = getattr base f) \<and>
   (truthy (getattr base f) \<and> merge_schemas schemas base = Inr p \<longrightarrow>
      getattr p f = getattr base f \<and>
      getattr (merge_profiles p (extract_microdata sp)) f = getattr base f) \<and>
   (parse_profile_page env html url = Inr (q, scanned) \<longrightarrow> profile_url q = Some url)"
proof (intro conjI impI)
  assume "getattr (merge_profiles base extra) f \<noteq> getattr base f"
  then show "\<not> truthy (getattr base f)" "truthy (getattr extra f)"
    "getattr (merge_profiles base extra) f = getattr extra f"
    by (simp_all add: getattr_merge_profiles split: if_splits)
next
  assume "truthy (getattr base f)"
  then show "getattr (foldl merge_profiles base extras) f = getattr base f"
    by (rule foldl_merge_keeps_truthy)
next
  assume h: "truthy (getattr base f) \<and> merge_schemas schemas base = Inr p"
  then show k: "getattr p f = getattr base f"
    using merge_schemas_keeps_truthy by blast
  with h show "getattr (merge_profiles p (extract_microdata sp)) f = getattr base f"
    by (simp add: merge_keeps_truthy)
next
  assume "parse_profile_page env html url = Inr (q, scanned)"
  then show "profile_url q = Some url" by (rule parse_profile_page_url)
qed

theorem merge_fills_only_empty_fields_witness:
  "getattr (merge_profiles
       \<lparr>name = None, phone = Some ''+49 1'', phone2 = None, zip_code = None, city = None,
        street = None, email = None, profile_url = Some ''u''\<rparr>
       \<lparr>name = None, phone = Some ''+49 2'', phone2 = Some ''+49 3'', zip_code = None,
        city = None, street = None, email = Some ''m@x.de'', profile_url = None\<rparr>) F_phone2
     \<noteq> getattr
       \<lparr>name = None, phone = Some ''+49 1'', phone2 = None, zip_code = None, city = None,
        street = None, email = None, profile_url = Some ''u''\<rparr> F_phone2 \<and>
   getattr (merge_profiles
       \<lparr>name = None, phone = Some ''+49 1'', phone2 = None, zip_code = None, city = None,
        street = None, email = None, profile_url = Some ''u''\<rparr>
       \<lparr>name = None, phone = Some ''+49 2'', phone2 = Some ''+49 3'', zip_code = None,
        city = None, street = None, email = Some ''m@x.de'', profile_url = None\<rparr>) F_phone2
     = Some ''+49 3'' \<and>
   truthy (getattr
       \<lparr>name = None, phone = Some ''+49 1'', phone2 = None, zip_code = None, city = None,
        street = None, email = None, profile_url = Some ''u''\<rparr> F_phone) \<and>
   getattr (foldl merge_profiles
       \<lparr>name = None, phone = Some ''+49 1'', phone2 = None, zip_code = None, city = None,
        street = None, email = None, profile_url = Some ''u''\<rparr>
       [\<lparr>name = None, phone = Some ''+49 2'', phone2 = Some ''+49 3'', zip_code = None,
         city = None, street = None, email = Some ''m@x.de'', profile_url = None\<rparr>,
        extract_microdata mix_soup]) F_phone = Some ''+49 1'' \<and>
   merge_schemas [mix_block2]
       \<lparr>name = None, phone = Some ''+49 1'', phone2 = None, zip_code = None, city = None,
        street = None, email = None, profile_url = Some ''u''\<rparr>
     = Inr \<lparr>name = None, phone = Some ''+49 1'', phone2 = Some ''+49 3'', zip_code = None,
        city = None, street = None, email = Some ''m@x.de'', profile_url = Some ''u''\<rparr> \<and>
   getattr (merge_profiles
       \<lparr>name = None, phone = Some ''+49 1'', phone2 = Some ''+49 3'', zip_code = None,
        city = None, street = None, email = Some ''m@x.de'', profile_url = Some ''u''\<rparr>
       (extract_microdata mix_soup)) F_phone = Some ''+49 1'' \<and>
   parse_profile_page demo_env ''mix'' ''u'' =
     Inr (\<lparr>name = Some ''Max'', phone = Some ''+49 1'', phone2 = Some ''+49 3'',
           zip_code = None, city = None, street = None, email = Some ''m@x.de'',
           profile_url = Some ''u''\<rparr>, True)"
proof -
  have m: "merge_schemas [mix_block2]
       \<lparr>name = None, phone = Some ''+49 1'', phone2 = None, zip_code = None, city = None,
        street = None, email = None, profile_url = Some ''u''\<rparr>
     = Inr \<lparr>name = None, phone = Some ''+49 1'', phone2 = Some ''+49 3'', zip_code = None,
        city = None, street = None, email = Some ''m@x.de'', profile_url = Some ''u''\<rparr>"
    by (simp add: mix2_extract mix_merge2)
  show ?thesis
    using m mix_page [of "''u''"]
      merge_fills_only_empty_fields
        [of "\<lparr>name = None, phone = Some ''+49 1'', phone2 = None, zip_code = None, city = None,
              street = None, email = None, profile_url = Some ''u''\<rparr>"
            "\<lparr>name = None, phone = Some ''+49 2'', phone2 = Some ''+49 3'', zip_code = None,
              city = None, street = None, email = Some ''m@x.de'', profile_url = None\<rparr>"
            F_phone2]
      merge_fills_only_empty_fields
        [of "\<lparr>name = None, phone = Some ''+49 1'', phone2 = None, zip_code = None, city = None,
              street = None, email = None, profile_url = Some ''u''\<rparr>"
            "\<lparr>name = None, phone = Some ''+49 2'', phone2 = Some ''+49 3'', zip_code = None,
              city = None, street = None, email = Some ''m@x.de'', profile_url = None\<rparr>"
            F_phone
            "[\<lparr>name = None, phone = Some ''+49 2'', phone2 = Some ''+49 3'', zip_code = None,
               city = None, street = None, email = Some ''m@x.de'', profile_url = None\<rparr>,
              extract_microdata mix_soup]"
            "[mix_block2]"
            "\<lparr>name = None, phone = Some ''+49 1'', phone2 = Some ''+49 3'', zip_code = None,
              city = None, street = None, email = Some ''m@x.de'', profile_url = Some ''u''\<rparr>"
            mix_soup demo_env "''mix''" "''u''"]
    by (simp add: mix_merge2)
qed

section \<open>Claims on extraction\<close>

text \<open>
  C2. For every structured-data block that is extracted, and for the micro-attribute
  scan of every page, the phone values are collected in discovery order (for a block:
  the values of the top-level telephone field first, then those of the nested contact
  points), duplicates are dropped, the first collected value becomes the primary phone
  and the second the secondary phone; further values are discarded, so the two phone
  slots are all that is filled, and they never hold the same value twice.
\<close>

theorem phone_extraction_two_slots:
  "(extract_from_schema item = Inr r \<longrightarrow>
      (phone r, phone2 r) = phone_slots (dedup_in_order (schema_phone_values item)) \<and>
      (phone2 r = None \<or> phone r \<noteq> phone2 r)) \<and>
   (phone (extract_microdata sp), phone2 (extract_microdata sp)) =
      phone_slots (dedup_in_order (micro_phone_values sp)) \<and>
   (phone2 (extract_microdata sp) = None \<or>
      phone (extract_microdata sp) \<noteq> phone2 (extract_microdata sp))"
proof (intro conjI impI)
  assume e: "extract_from_schema item = Inr r"
  then show s: "(phone r, phone2 r) = phone_slots (dedup_in_order (schema_phone_values item))"
    by (rule extract_from_schema_phones(1))
  show "phone2 r = None \<or> phone r \<noteq> phone2 r"
  proof (cases "phone2 r")
    case None
    then show ?thesis by simp
  next
    case (Some b)
    with s have "phone_slots (dedup_in_order (schema_phone_values item)) = (phone r, Some b)"
      by simp
    from phone_slots_distinct [OF distinct_dedup_in_order this] Some show ?thesis by simp
  qed
next
  show "(phone (extract_microdata sp), phone2 (extract_microdata sp)) =
      phone_slots (dedup_in_order (micro_phone_values sp))"
    by (rule extract_microdata_phones)
next
  show "phone2 (extract_microdata sp) = None \<or>
      phone (extract_microdata sp) \<noteq> phone2 (extract_microdata sp)"
  proof (cases "phone2 (extract_microdata sp)")
    case None
    then show ?thesis by simp
  next
    case (Some b)
    with extract_microdata_phones [of sp]
    have "phone_slots (dedup_in_order (micro_phone_values sp)) =
            (phone (extract_microdata sp), Some b)"
      by simp
    from phone_slots_distinct [OF distinct_dedup_in_order this] Some show ?thesis by simp
  qed
qed

theorem phone_extraction_two_slots_witness:
  "extract_from_schema mix_block2 =
     Inr \<lparr>name = None, phone = Some ''+49 2'', phone2 = Some ''+49 3'', zip_code = None,
          city = None, street = None, email = Some ''m@x.de'', profile_url = None\<rparr> \<and>
   schema_phone_values mix_block2 = [''+49 2'', ''+49 2'', ''+49 3'', ''+49 4''] \<and>
   phone_slots (dedup_in_order (schema_phone_values mix_block2)) =
     (Some ''+49 2'', Some ''+49 3'') \<and>
   micro_phone_values solo_soup = [''+49 5'', ''+49 5'', ''+49 6'', ''+49 7''] \<and>
   (phone (extract_microdata solo_soup), phone2 (extract_microdata solo_soup)) =
     (Some ''+49 5'', Some ''+49 6'')"
proof -
  have v: "schema_phone_values mix_block2 = [''+49 2'', ''+49 2'', ''+49 3'', ''+49 4'']"
    by (simp add: schema_phone_values_def json_phone_def mix_block2_def dict_get_def text_eval)
  have w: "micro_phone_values solo_soup = [''+49 5'', ''+49 5'', ''+49 6'', ''+49 7'']"
    by (simp add: micro_phone_values_def solo_soup_def micro_eval text_eval)
  show ?thesis
    using v w mix2_extract
      phone_extraction_two_slots
        [of mix_block2
            "\<lparr>name = None, phone = Some ''+49 2'', phone2 = Some ''+49 3'', zip_code = None,
              city = None, street = None, email = Some ''m@x.de'', profile_url = None\<rparr>"
            solo_soup]
    by (simp add: phone_slots_def)
qed

text \<open>
  C6. For every page that is parsed, the micro-attribute fallback is invoked if and only
  if, after all structured-data blocks have been merged, the record still lacks a name
  or a primary phone. When the blocks supplied both, the micro-attribute scan is not
  performed and the record is the merged blocks' record; otherwise the scan's candidate
  is merged into it.
\<close>

theorem fallback_iff_name_or_phone_missing:
  "parse_profile_page env html url = Inr (p, scanned) \<longrightarrow>
     (\<exists>t1. merge_schemas (iter_schema_candidates env (html_parser env html))
             (empty_profile\<lparr>profile_url := Some url\<rparr>) = Inr t1 \<and>
           (scanned \<longleftrightarrow> \<not> truthy (name t1) \<or> \<not> truthy (phone t1)) \<and>
           (\<not> scanned \<longrightarrow> p = t1) \<and>
           (scanned \<longrightarrow> p = merge_profiles t1 (extract_microdata (html_parser env html))))"
proof
  assume "parse_profile_page env html url = Inr (p, scanned)"
  then obtain t1 where
    "merge_schemas (iter_schema_candidates env (html_parser env html))
       (empty_profile\<lparr>profile_url := Some url\<rparr>) = Inr t1"
    "scanned \<longleftrightarrow> \<not> truthy (name t1) \<or> \<not> truthy (phone t1)"
    "p = (if scanned then merge_profiles t1 (extract_microdata (html_parser env html)) else t1)"
    by (rule parse_profile_page_cases)
  then show "\<exists>t1. merge_schemas (iter_schema_candidates env (html_parser env html))
             (empty_profile\<lparr>profile_url := Some url\<rparr>) = Inr t1 \<and>
           (scanned \<longleftrightarrow> \<not> truthy (name t1) \<or> \<not> truthy (phone t1)) \<and>
           (\<not> scanned \<longrightarrow> p = t1) \<and>
           (scanned \<longrightarrow> p = merge_profiles t1 (extract_microdata (html_parser env html)))"
    by (intro exI [of _ t1]) simp
qed

theorem fallback_iff_name_or_phone_missing_witness:
  "parse_profile_page demo_env ''roe'' ''u'' =
     Inr (\<lparr>name = Some ''John Roe'', phone = Some ''+49 9 8 7'', phone2 = None,
           zip_code = None, city = None, street = None, email = None,
           profile_url = Some ''u''\<rparr>, True) \<and>
   iter_schema_candidates demo_env (html_parser demo_env ''roe'') = [] \<and>
   parse_profile_page demo_env ''doe'' ''u'' =
     Inr (\<lparr>name = Some ''Jane Doe'', phone = Some ''+49 1 2 3'', phone2 = None,
           zip_code = Some ''12345'', city = Some ''Berlin'', street = Some ''Main St 1'',
           email = None, profile_url = Some ''u''\<rparr>, False) \<and>
   (\<exists>t1. merge_schemas (iter_schema_candidates demo_env (html_parser demo_env ''doe''))
           (empty_profile\<lparr>profile_url := Some ''u''\<rparr>) = Inr t1 \<and>
         truthy (name t1) \<and> truthy (phone t1) \<and>
         t1 = \<lparr>name = Some ''Jane Doe'', phone = Some ''+49 1 2 3'', phone2 = None,
               zip_code = Some ''12345'', city = Some ''Berlin'', street = Some ''Main St 1'',
               email = None, profile_url = Some ''u''\<rparr>)"
  using roe_page [of "''u''"] doe_page [of "''u''"]
    fallback_iff_name_or_phone_missing
      [of demo_env "''doe''" "''u''"
          "\<lparr>name = Some ''Jane Doe'', phone = Some ''+49 1 2 3'', phone2 = None,
            zip_code = Some ''12345'', city = Some ''Berlin'', street = Some ''Main St 1'',
            email = None, profile_url = Some ''u''\<rparr>" False]
  by (simp add: demo_parser demo_candidates)

text \<open>
  C10. Merging is per field, so the two phones of the final record can come from
  different sources. When the record has a primary phone and no secondary phone and the
  candidate has a secondary phone, the merge keeps the record's primary phone and takes
  the candidate's secondary phone. So for a block that supplies only a primary phone
  followed by a block that supplies both, and for structured data that supplies only a
  primary phone (no name, no secondary phone) followed by the micro-attribute fallback
  that supplies both, the final record has the earlier primary phone and the later
  source's secondary phone, and the later source's primary phone, when it differs from
  the earlier one, is in neither slot.
\<close>

theorem phones_from_different_sources:
  "(truthy (phone base) \<and> \<not> truthy (phone2 base) \<and> truthy (phone2 extra) \<longrightarrow>
      phone (merge_profiles base extra) = phone base \<and>
      phone2 (merge_profiles base extra) = phone2 extra) \<and>
   (extract_from_schema b1 = Inr e1 \<and> extract_from_schema b2 = Inr e2 \<and>
    truthy (phone e1) \<and> \<not> truthy (phone2 e1) \<and> truthy (phone2 e2) \<and>
    merge_schemas [b1, b2] (empty_profile\<lparr>profile_url := Some url\<rparr>) = Inr t \<longrightarrow>
      phone t = phone e1 \<and> phone2 t = phone2 e2 \<and>
      (phone e2 \<noteq> phone e1 \<longrightarrow> phone e2 \<noteq> phone t \<and> phone e2 \<noteq> phone2 t)) \<and>
   (parse_profile_page env html url = Inr (p, scanned) \<and>
    merge_schemas (iter_schema_candidates env (html_parser env html))
      (empty_profile\<lparr>profile_url := Some url\<rparr>) = Inr t1 \<and>
    truthy (phone t1) \<and> \<not> truthy (phone2 t1) \<and> \<not> truthy (name t1) \<and>
    truthy (phone2 (extract_microdata (html_parser env html))) \<longrightarrow>
      scanned \<and> phone p = phone t1 \<and>
      phone2 p = phone2 (extract_microdata (html_parser env html)) \<and>
      (phone (extract_microdata (html_parser env html)) \<noteq> phone t1 \<longrightarrow>
         phone (extract_microdata (html_parser env html)) \<noteq> phone p \<and>
         phone (extract_microdata (html_parser env html)) \<noteq> phone2 p))"
proof (intro conjI impI)
  assume "truthy (phone base) \<and> \<not> truthy (phone2 base) \<and> truthy (phone2 extra)"
  then show "phone (merge_profiles base extra) = phone base"
    "phone2 (merge_profiles base extra) = phone2 extra"
    using getattr_merge_profiles [of base extra F_phone]
      getattr_merge_profiles [of base extra F_phone2]
    by simp_all
next
  assume h: "extract_from_schema b1 = Inr e1 \<and> extract_from_schema b2 = Inr e2 \<and>
    truthy (phone e1) \<and> \<not> truthy (phone2 e1) \<and> truthy (phone2 e2) \<and>
    merge_schemas [b1, b2] (empty_profile\<lparr>profile_url := Some url\<rparr>) = Inr t"
  let ?i = "empty_profile\<lparr>profile_url := Some url\<rparr>"
  from h have t: "t = merge_profiles (merge_profiles ?i e1) e2" by auto
  from h have a: "phone (merge_profiles ?i e1) = phone e1"
    "\<not> truthy (phone2 (merge_profiles ?i e1))"
    using getattr_merge_profiles [of ?i e1 F_phone] getattr_merge_profiles [of ?i e1 F_phone2]
    by (auto simp: empty_profile_def)
  from h a show p1: "phone t = phone e1" and p2: "phone2 t = phone2 e2"
    unfolding t
    using getattr_merge_profiles [of "merge_profiles ?i e1" e2 F_phone]
      getattr_merge_profiles [of "merge_profiles ?i e1" e2 F_phone2]
    by simp_all
  from h have s: "(phone e2, phone2 e2) = phone_slots (dedup_in_order (schema_phone_values b2))"
    by (simp add: extract_from_schema_phones(1))
  from h obtain b where b: "phone2 e2 = Some b" by (cases "phone2 e2") simp_all
  from s b have "phone_slots (dedup_in_order (schema_phone_values b2)) = (phone e2, Some b)"
    by simp
  from phone_slots_distinct [OF distinct_dedup_in_order this] b
  have d: "phone e2 \<noteq> phone2 e2" by simp
  assume "phone e2 \<noteq> phone e1"
  with p1 p2 d show "phone e2 \<noteq> phone t" "phone e2 \<noteq> phone2 t" by simp_all
next
  let ?m = "extract_microdata (html_parser env html)"
  assume h: "parse_profile_page env html url = Inr (p, scanned) \<and>
    merge_schemas (iter_schema_candidates env (html_parser env html))
      (empty_profile\<lparr>profile_url := Some url\<rparr>) = Inr t1 \<and>
    truthy (phone t1) \<and> \<not> truthy (phone2 t1) \<and> \<not> truthy (name t1) \<and>
    truthy (phone2 ?m)"
  then obtain t' where
    "merge_schemas (iter_schema_candidates env (html_parser env html))
       (empty_profile\<lparr>profile_url := Some url\<rparr>) = Inr t'"
    "scanned \<longleftrightarrow> \<not> truthy (name t') \<or> \<not> truthy (phone t')"
    "p = (if scanned then merge_profiles t' ?m else t')"
    using parse_profile_page_cases [of env html url p scanned] by blast
  with h have sc: scanned and p: "p = merge_profiles t1 ?m" by auto
  from sc show scanned .
  from h show p1: "phone p = phone t1" and p2: "phone2 p = phone2 ?m"
    unfolding p
    using getattr_merge_profiles [of t1 ?m F_phone] getattr_merge_profiles [of t1 ?m F_phone2]
    by simp_all
  from h obtain b where b: "phone2 ?m = Some b" by (cases "phone2 ?m") simp_all
  with extract_microdata_phones [of "html_parser env html"]
  have "phone_slots (dedup_in_order (micro_phone_values (html_parser env html))) =
          (phone ?m, Some b)"
    by simp
  from phone_slots_distinct [OF distinct_dedup_in_order this] b
  have d: "phone ?m \<noteq> phone2 ?m" by simp
  assume "phone ?m \<noteq> phone t1"
  with p1 p2 d show "phone ?m \<noteq> phone p" "phone ?m \<noteq> phone2 p" by simp_all
qed

theorem phones_from_different_sources_witness:
  "extract_from_schema mix_block1 =
     Inr \<lparr>name = None, phone = Some ''+49 1'', phone2 = None, zip_code = None, city = None,
          street = None, email = None, profile_url = None\<rparr> \<and>
   extract_from_schema mix_block2 =
     Inr \<lparr>name = None, phone = Some ''+49 2'', phone2 = Some ''+49 3'', zip_code = None,
          city = None, street = None, email = Some ''m@x.de'', profile_url = None\<rparr> \<and>
   merge_schemas [mix_block1, mix_block2] (empty_profile\<lparr>profile_url := Some ''u''\<rparr>) =
     Inr \<lparr>name = None, phone = Some ''+49 1'', phone2 = Some ''+49 3'', zip_code = None,
          city = None, street = None, email = Some ''m@x.de'', profile_url = Some ''u''\<rparr> \<and>
   merge_schemas (iter_schema_candidates demo_env (html_parser demo_env ''solo''))
       (empty_profile\<lparr>profile_url := Some ''u''\<rparr>) =
     Inr \<lparr>name = None, phone = Some ''+49 1'', phone2 = None, zip_code = None, city = None,
          street = None, email = None, profile_url = Some ''u''\<rparr> \<and>
   extract_microdata (html_parser demo_env ''solo'') =
     \<lparr>name = None, phone = Some ''+49 5'', phone2 = Some ''+49 6'', zip_code = None,
      city = None, street = None, email = None, profile_url = None\<rparr> \<and>
   parse_profile_page demo_env ''solo'' ''u'' =
     Inr (\<lparr>name = None, phone = Some ''+49 1'', phone2 = Some ''+49 6'', zip_code = None,
           city = None, street = None, email = None, profile_url = Some ''u''\<rparr>, True)"
proof -
  have a: "merge_schemas [mix_block1, mix_block2] (empty_profile\<lparr>profile_url := Some ''u''\<rparr>) =
     Inr \<lparr>name = None, phone = Some ''+49 1'', phone2 = Some ''+49 3'', zip_code = None,
          city = None, street = None, email = Some ''m@x.de'', profile_url = Some ''u''\<rparr>"
    by (simp add: mix1_extract mix2_extract mix_merge1 mix_merge2 empty_profile_def)
  have b: "merge_schemas (iter_schema_candidates demo_env (html_parser demo_env ''solo''))
       (empty_profile\<lparr>profile_url := Some ''u''\<rparr>) =
     Inr \<lparr>name = None, phone = Some ''+49 1'', phone2 = None, zip_code = None, city = None,
          street = None, email = None, profile_url = Some ''u''\<rparr>"
    by (simp add: demo_parser demo_candidates mix1_extract mix_merge1 empty_profile_def)
  show ?thesis
    using a b mix1_extract mix2_extract solo_micro solo_page [of "''u''"]
      phones_from_different_sources
        [of "\<lparr>name = None, phone = Some ''+49 1'', phone2 = None, zip_code = None, city = None,
              street = None, email = None, profile_url = Some ''u''\<rparr>"
            "\<lparr>name = None, phone = Some ''+49 2'', phone2 = Some ''+49 3'', zip_code = None,
              city = None, street = None, email = Some ''m@x.de'', profile_url = None\<rparr>"
            mix_block1
            "\<lparr>name = None, phone = Some ''+49 1'', phone2 = None, zip_code = None, city = None,
              street = None, email = None, profile_url = None\<rparr>"
            mix_block2
            "\<lparr>name = None, phone = Some ''+49 2'', phone2 = Some ''+49 3'', zip_code = None,
              city = None, street = None, email = Some ''m@x.de'', profile_url = None\<rparr>"
            "''u''"
            "\<lparr>name = None, phone = Some ''+49 1'', phone2 = Some ''+49 3'', zip_code = None,
              city = None, street = None, email = Some ''m@x.de'', profile_url = Some ''u''\<rparr>"
            demo_env "''solo''"
            "\<lparr>name = None, phone = Some ''+49 1'', phone2 = Some ''+49 6'', zip_code = None,
              city = None, street = None, email = None, profile_url = Some ''u''\<rparr>"
            True
            "\<lparr>name = None, phone = Some ''+49 1'', phone2 = None, zip_code = None, city = None,
              street = None, email = None, profile_url = Some ''u''\<rparr>"]
    by (simp add: demo_parser)
qed

section \<open>Claims on the fetch worker\<close>



text \<open>
  C8. For every successfully fetched page whose parsing returns a record, the worker
  returns that record, also when it has no name, no phone and no email: such a record is
  logged at debug level and returned all the same, the caller's collection keeps it, and
  its source URL is the requested URL.
\<close>

theorem fetched_record_is_returned:
  "fetch_response web url = Inr resp \<and>
   parse_profile_page env (resp_text resp) url = Inr (p, scanned) \<longrightarrow>
     snd (fetch_profile env web url delay_range sleep_time) = Inr (Some p) \<and>
     profile_url p = Some url \<and>
     (\<not> (truthy (name p) \<or> truthy (phone p) \<or> truthy (email p)) \<longrightarrow>
        Log DEBUG (MsgEmpty url) \<in> set (fst (fetch_profile env web url delay_range sleep_time))) \<and>
     fst (gather i [(url, snd (fetch_profile env web url delay_range sleep_time))]) = [p]"
proof (intro impI)
  assume h: "fetch_response web url = Inr resp \<and>
    parse_profile_page env (resp_text resp) url = Inr (p, scanned)"
  then have f: "fetch_response web url = Inr resp"
    and q: "parse_profile_page env (resp_text resp) url = Inr (p, scanned)"
    by simp_all
  note r = fetch_profile_parsed [OF f q, of delay_range sleep_time]
  have u: "profile_url p = Some url" using q by (rule parse_profile_page_url)
  show "snd (fetch_profile env web url delay_range sleep_time) = Inr (Some p) \<and>
     profile_url p = Some url \<and>
     (\<not> (truthy (name p) \<or> truthy (phone p) \<or> truthy (email p)) \<longrightarrow>
        Log DEBUG (MsgEmpty url) \<in> set (fst (fetch_profile env web url delay_range sleep_time))) \<and>
     fst (gather i [(url, snd (fetch_profile env web url delay_range sleep_time))]) = [p]"
    unfolding r using u by simp
qed

theorem fetched_record_is_returned_witness:
  "fetch_response demo_web ''https://x.de/vermoegensberater/e'' =
     Inr (ok_response ''https://x.de/vermoegensberater/e'' ''nothing'') \<and>
   parse_profile_page demo_env ''nothing'' ''https://x.de/vermoegensberater/e'' =
     Inr (\<lparr>name = None, phone = None, phone2 = None, zip_code = None, city = None,
           street = None, email = None,
           profile_url = Some ''https://x.de/vermoegensberater/e''\<rparr>, True) \<and>
   snd (fetch_profile demo_env demo_web ''https://x.de/vermoegensberater/e'' (0, 0) 0) =
     Inr (Some \<lparr>name = None, phone = None, phone2 = None, zip_code = None, city = None,
                street = None, email = None,
                profile_url = Some ''https://x.de/vermoegensberater/e''\<rparr>) \<and>
   Log DEBUG (MsgEmpty ''https://x.de/vermoegensberater/e'')
     \<in> set (fst (fetch_profile demo_env demo_web ''https://x.de/vermoegensberater/e'' (0, 0) 0))"
  using demo_fetch(1) nothing_page [of "''https://x.de/vermoegensberater/e''"]
    fetched_record_is_returned
      [of demo_web "''https://x.de/vermoegensberater/e''"
          "ok_response ''https://x.de/vermoegensberater/e'' ''nothing''"
          demo_env
          "\<lparr>name = None, phone = None, phone2 = None, zip_code = None, city = None,
            street = None, email = None,
            profile_url = Some ''https://x.de/vermoegensberater/e''\<rparr>"
          True "(0, 0)" 0 1]
  by (simp add: ok_response_def)

section \<open>Claims on the sitemap walker\<close>

text \<open>
  C5, as stated: location extraction returns every non-empty location value found
  anywhere in the document, also in a document that mixes namespaced and plain location
  tags. It fails on such a document: the plain tags are only looked for when no
  namespaced tag was found.
\<close>

theorem mixed_locations_counterexample:
  "xml_fromstring demo_env ''mixed'' = Some mixed_doc \<and>
   Element ''loc'' (Some ''https://x.de/vermoegensberater/b'') [] \<in> set (descendants mixed_doc) \<and>
   strip ''https://x.de/vermoegensberater/b'' \<notin> set (fst (extract_loc_values demo_env ''mixed''))"
  by (simp add: demo_env_def mixed_doc_def ns_loc_def extract_loc_values_def findall_def
      loc_text_def SITEMAP_NS_def text_eval)

text \<open>
  C5, amended. For a body that is not well-formed XML, location extraction logs one
  warning and returns no location. For a parsed document it logs nothing and returns the
  stripped text of the elements below the root that carry the namespaced location tag
  and a non-empty text; only when no element below the root carries the namespaced tag
  does it return those of the elements with the plain location tag instead. Nothing else
  is returned.
\<close>

theorem extract_loc_values_by_tag_form:
  "(xml_fromstring env body = None \<longrightarrow>
      extract_loc_values env body = ([], [Log WARNING MsgSitemapParse])) \<and>
   (xml_fromstring env body = Some tree \<longrightarrow>
      snd (extract_loc_values env body) = [] \<and>
      (\<forall>e t. e \<in> set (descendants tree) \<and> elem_tag e = SITEMAP_NS @ ''loc'' \<and>
             elem_text e = Some t \<and> t \<noteq> [] \<longrightarrow>
             strip t \<in> set (fst (extract_loc_values env body))) \<and>
      ((\<forall>e \<in> set (descendants tree). elem_tag e \<noteq> SITEMAP_NS @ ''loc'') \<longrightarrow>
         (\<forall>e t. e \<in> set (descendants tree) \<and> elem_tag e = ''loc'' \<and>
                elem_text e = Some t \<and> t \<noteq> [] \<longrightarrow>
                strip t \<in> set (fst (extract_loc_values env body)))) \<and>
      (\<forall>v \<in> set (fst (extract_loc_values env body)).
         \<exists>e t. e \<in> set (descendants tree) \<and> elem_text e = Some t \<and> t \<noteq> [] \<and> v = strip t \<and>
               (elem_tag e = SITEMAP_NS @ ''loc'' \<or>
                elem_tag e = ''loc'' \<and>
                (\<forall>d \<in> set (descendants tree). elem_tag d \<noteq> SITEMAP_NS @ ''loc''))))"
proof (intro conjI impI)
  assume "xml_fromstring env body = None"
  then show "extract_loc_values env body = ([], [Log WARNING MsgSitemapParse])"
    by (simp add: extract_loc_values_def)
next
  assume p: "xml_fromstring env body = Some tree"
  show "snd (extract_loc_values env body) = []"
    using p by (simp add: extract_loc_values_def Let_def)
  show "\<forall>e t. e \<in> set (descendants tree) \<and> elem_tag e = SITEMAP_NS @ ''loc'' \<and>
             elem_text e = Some t \<and> t \<noteq> [] \<longrightarrow>
             strip t \<in> set (fst (extract_loc_values env body))"
  proof (intro allI impI)
    fix e t
    assume h: "e \<in> set (descendants tree) \<and> elem_tag e = SITEMAP_NS @ ''loc'' \<and>
             elem_text e = Some t \<and> t \<noteq> []"
    then have m: "strip t \<in> set (concat (map loc_text (findall tree (SITEMAP_NS @ ''loc''))))"
      and ne: "findall tree (SITEMAP_NS @ ''loc'') \<noteq> []"
      using findall_member [of e tree "SITEMAP_NS @ ''loc''" t] by simp_all
    from m show "strip t \<in> set (fst (extract_loc_values env body))"
      by (simp only: extract_loc_values_ns [OF p ne])
  qed
  show "\<forall>v \<in> set (fst (extract_loc_values env body)).
         \<exists>e t. e \<in> set (descendants tree) \<and> elem_text e = Some t \<and> t \<noteq> [] \<and> v = strip t \<and>
               (elem_tag e = SITEMAP_NS @ ''loc'' \<or>
                elem_tag e = ''loc'' \<and>
                (\<forall>d \<in> set (descendants tree). elem_tag d \<noteq> SITEMAP_NS @ ''loc''))"
  proof (cases "findall tree (SITEMAP_NS @ ''loc'') = []")
    case False
    with p have eq: "fst (extract_loc_values env body) =
        concat (map loc_text (findall tree (SITEMAP_NS @ ''loc'')))"
      by (simp add: extract_loc_values_ns)
    show ?thesis
    proof (intro ballI)
      fix v
      assume "v \<in> set (fst (extract_loc_values env body))"
      then have "v \<in> set (concat (map loc_text (findall tree (SITEMAP_NS @ ''loc''))))"
        by (simp only: eq)
      then obtain e t where "e \<in> set (descendants tree)" "elem_tag e = SITEMAP_NS @ ''loc''"
        "elem_text e = Some t" "t \<noteq> []" "v = strip t"
        unfolding loc_values_iff by blast
      then show "\<exists>e t. e \<in> set (descendants tree) \<and> elem_text e = Some t \<and> t \<noteq> [] \<and>
               v = strip t \<and>
               (elem_tag e = SITEMAP_NS @ ''loc'' \<or>
                elem_tag e = ''loc'' \<and>
                (\<forall>d \<in> set (descendants tree). elem_tag d \<noteq> SITEMAP_NS @ ''loc''))"
        by blast
    qed
  next
    case True
    then have "\<forall>d \<in> set (descendants tree). elem_tag d \<noteq> SITEMAP_NS @ ''loc''"
      by (auto simp: findall_def filter_empty_conv)
    moreover from p True have eq: "fst (extract_loc_values env body) =
        concat (map loc_text (findall tree ''loc''))"
      by (simp add: extract_loc_values_plain)
    ultimately show ?thesis
    proof (intro ballI)
      fix v
      assume n: "\<forall>d \<in> set (descendants tree). elem_tag d \<noteq> SITEMAP_NS @ ''loc''"
      assume "v \<in> set (fst (extract_loc_values env body))"
      then have "v \<in> set (concat (map loc_text (findall tree ''loc'')))"
        by (simp only: eq)
      then obtain e t where "e \<in> set (descendants tree)" "elem_tag e = ''loc''"
        "elem_text e = Some t" "t \<noteq> []" "v = strip t"
        unfolding loc_values_iff by blast
      with n show "\<exists>e t. e \<in> set (descendants tree) \<and> elem_text e = Some t \<and> t \<noteq> [] \<and>
               v = strip t \<and>
               (elem_tag e = SITEMAP_NS @ ''loc'' \<or>
                elem_tag e = ''loc'' \<and>
                (\<forall>d \<in> set (descendants tree). elem_tag d \<noteq> SITEMAP_NS @ ''loc''))"
        by blast
    qed
  qed
next
  assume p: "xml_fromstring env body = Some tree"
    and n: "\<forall>e \<in> set (descendants tree). elem_tag e \<noteq> SITEMAP_NS @ ''loc''"
  from n have "findall tree (SITEMAP_NS @ ''loc'') = []"
    by (auto simp: findall_def filter_empty_conv)
  then have eq: "fst (extract_loc_values env body) = concat (map loc_text (findall tree ''loc''))"
    using p by (simp add: extract_loc_values_plain)
  show "\<forall>e t. e \<in> set (descendants tree) \<and> elem_tag e = ''loc'' \<and>
                elem_text e = Some t \<and> t \<noteq> [] \<longrightarrow>
                strip t \<in> set (fst (extract_loc_values env body))"
    unfolding eq using findall_member [of _ tree "''loc''"] by blast
qed

theorem extract_loc_values_by_tag_form_witness:
  "xml_fromstring demo_env ''<<'' = None \<and>
   extract_loc_values demo_env ''<<'' = ([], [Log WARNING MsgSitemapParse]) \<and>
   xml_fromstring demo_env ''mixed'' = Some mixed_doc \<and>
   extract_loc_values demo_env ''mixed'' = ([''https://x.de/vermoegensberater/a''], []) \<and>
   xml_fromstring demo_env ''child'' = Some child_doc \<and>
   set (fst (extract_loc_values demo_env ''child'')) =
     {''https://x.de/Vermoegensberater/b'', ''https://x.de/index.xml'', ''https://x.de/about'',
      ''https://x.de/vermoegensberater/a'', ''https://x.de/child.XML''}"
proof -
  have a: "xml_fromstring demo_env ''<<'' = None"
    "xml_fromstring demo_env ''mixed'' = Some mixed_doc"
    "xml_fromstring demo_env ''child'' = Some child_doc"
    by (simp_all add: demo_env_def)
  have b: "extract_loc_values demo_env ''mixed'' = ([''https://x.de/vermoegensberater/a''], [])"
    by (simp add: a extract_loc_values_def mixed_doc_def ns_loc_def findall_def loc_text_def
        SITEMAP_NS_def text_eval)
  have c: "fst (extract_loc_values demo_env ''child'') =
     [''https://x.de/Vermoegensberater/b'', ''https://x.de/index.xml'', ''https://x.de/about'',
      ''https://x.de/vermoegensberater/a'', ''https://x.de/child.XML'',
      ''https://x.de/vermoegensberater/a'']"
    by (simp add: a extract_loc_values_def child_doc_def findall_def loc_text_def
        SITEMAP_NS_def text_eval)
  show ?thesis
    using a b c
      extract_loc_values_by_tag_form [of demo_env "''<<''" mixed_doc]
      extract_loc_values_by_tag_form [of demo_env "''mixed''" mixed_doc]
    by auto
qed

text \<open>
  C3. For every sitemap graph (a finite table of documents), also when a sitemap
  refers to itself or lies on a cycle of nested sitemaps, the recursive expansion
  terminates: any recursion depth beyond the number of documents gives a result, the same
  for every such depth. Within one expansion each URL is fetched at most once: a URL
  that is already visited is skipped, with no fetch and no error, and a call that is
  handed a visited set fetches none of its URLs again.
\<close>

theorem expand_sitemap_terminates_fetching_once:
  "(length web < fuel \<longrightarrow>
      (\<exists>r seen evs. expand_sitemap fuel env web url None = Some (r, seen, evs) \<and>
         expand_sitemap (Suc (length web)) env web url None = Some (r, seen, evs) \<and>
         distinct (fetches evs) \<and> set (fetches evs) \<subseteq> seen)) \<and>
   (url \<in> visited \<longrightarrow>
      expand_sitemap (Suc n) env web url (Some visited) = Some (Inr [], visited, [])) \<and>
   (card (fst ` set web - visited) < fuel \<longrightarrow>
      (\<exists>r seen evs. expand_sitemap fuel env web url (Some visited) = Some (r, seen, evs) \<and>
         visited \<subseteq> seen \<and> distinct (fetches evs) \<and> set (fetches evs) \<inter> visited = {}))"
proof (intro conjI impI)
  assume "length web < fuel"
  then show "\<exists>r seen evs. expand_sitemap fuel env web url None = Some (r, seen, evs) \<and>
         expand_sitemap (Suc (length web)) env web url None = Some (r, seen, evs) \<and>
         distinct (fetches evs) \<and> set (fetches evs) \<subseteq> seen"
    by (rule expand_sitemap_top)
next
  assume "url \<in> visited"
  then show "expand_sitemap (Suc n) env web url (Some visited) = Some (Inr [], visited, [])"
    by simp
next
  assume "card (fst ` set web - visited) < fuel"
  from expand_sitemap_total [OF this, of env url]
  show "\<exists>r seen evs. expand_sitemap fuel env web url (Some visited) = Some (r, seen, evs) \<and>
         visited \<subseteq> seen \<and> distinct (fetches evs) \<and> set (fetches evs) \<inter> visited = {}"
    by blast
qed

theorem expand_sitemap_terminates_fetching_once_witness:
  "length demo_web < 8 \<and>
   map_option (\<lambda>(r, seen, evs). (r, fetches evs))
       (expand_sitemap 8 demo_env demo_web ''https://x.de/index.xml'' None) =
     Some (Inr [''https://x.de/Vermoegensberater/b'', ''https://x.de/vermoegensberater/a'',
                ''https://x.de/vermoegensberater/a''],
           [''https://x.de/index.xml'', ''https://x.de/child.XML'', ''https://x.de/broken.xml'']) \<and>
   (\<exists>r seen evs.
      expand_sitemap 8 demo_env demo_web ''https://x.de/index.xml'' None = Some (r, seen, evs) \<and>
      expand_sitemap (Suc (length demo_web)) demo_env demo_web ''https://x.de/index.xml'' None =
        Some (r, seen, evs) \<and>
      distinct (fetches evs) \<and> set (fetches evs) \<subseteq> seen)"
proof -
  have l: "length demo_web < 8"
    by (simp add: demo_web_def)
  have e: "map_option (\<lambda>(r, seen, evs). (r, fetches evs))
       (expand_sitemap 8 demo_env demo_web ''https://x.de/index.xml'' None) =
     Some (Inr [''https://x.de/Vermoegensberater/b'', ''https://x.de/vermoegensberater/a'',
                ''https://x.de/vermoegensberater/a''],
           [''https://x.de/index.xml'', ''https://x.de/child.XML'', ''https://x.de/broken.xml''])"
    by code_simp
  from l expand_sitemap_terminates_fetching_once
    [of demo_web 8 demo_env "''https://x.de/index.xml''" "{}" 0]
  have "\<exists>r seen evs.
      expand_sitemap 8 demo_env demo_web ''https://x.de/index.xml'' None = Some (r, seen, evs) \<and>
      expand_sitemap (Suc (length demo_web)) demo_env demo_web ''https://x.de/index.xml'' None =
        Some (r, seen, evs) \<and>
      distinct (fetches evs) \<and> set (fetches evs) \<subseteq> seen"
    by blast
  with l e show ?thesis by blast
qed

text \<open>
  C4. For every seed list, the walker's final output is the union of the profile URLs
  that the expansions of the seeds return, without duplicates, as a lexicographically
  sorted list; the output is a function of the static input alone (any recursion depth
  beyond the number of documents gives the same output and the same events).
\<close>

theorem collect_profile_urls_sorted_union:
  "length web < fuel \<longrightarrow>
     (\<exists>urls evs. collect_profile_urls fuel env web seeds = Some (urls, evs) \<and>
        collect_profile_urls (Suc (length web)) env web seeds = Some (urls, evs) \<and>
        sorted urls \<and> distinct urls \<and>
        set urls = (\<Union>seed \<in> set seeds. seed_urls fuel env web seed))"
proof
  assume f: "length web < fuel"
  let ?U = "\<Union>seed \<in> set seeds. seed_urls fuel env web seed"
  from collect_loop_union [OF f, of env seeds "{}"] obtain evs where
    c: "collect_loop fuel env web seeds {} = Some (?U, evs)"
    by auto
  with collect_loop_fuel [OF f, of env seeds "{}"]
  have c': "collect_loop (Suc (length web)) env web seeds {} = Some (?U, evs)"
    by simp
  have fin: "finite ?U" by (simp add: finite_seed_urls)
  let ?out = "(sorted_list_of_set ?U,
               evs @ [Log INFO (MsgTotal (length (sorted_list_of_set ?U)))])"
  have "collect_profile_urls fuel env web seeds = Some ?out"
    using c by (simp add: collect_profile_urls_def)
  moreover have "collect_profile_urls (Suc (length web)) env web seeds = Some ?out"
    using c' by (simp add: collect_profile_urls_def del: collect_loop.simps expand_sitemap.simps)
  moreover have "sorted (sorted_list_of_set ?U)" "distinct (sorted_list_of_set ?U)"
    by simp_all
  moreover have "set (sorted_list_of_set ?U) = ?U"
    using fin by simp
  ultimately show "\<exists>urls evs. collect_profile_urls fuel env web seeds = Some (urls, evs) \<and>
        collect_profile_urls (Suc (length web)) env web seeds = Some (urls, evs) \<and>
        sorted urls \<and> distinct urls \<and>
        set urls = (\<Union>seed \<in> set seeds. seed_urls fuel env web seed)"
    by blast
qed

theorem collect_profile_urls_sorted_union_witness:
  "length demo_web < 8 \<and>
   map_option fst
       (collect_profile_urls 8 demo_env demo_web
          [''https://x.de/index.xml'', ''https://x.de/nowhere.xml'', ''https://x.de/child.XML'']) =
     Some [''https://x.de/Vermoegensberater/b'', ''https://x.de/vermoegensberater/a''] \<and>
   (\<exists>urls evs.
      collect_profile_urls 8 demo_env demo_web
          [''https://x.de/index.xml'', ''https://x.de/nowhere.xml'', ''https://x.de/child.XML''] =
        Some (urls, evs) \<and>
      sorted urls \<and> distinct urls \<and>
      set urls =
        (\<Union>seed \<in> set [''https://x.de/index.xml'', ''https://x.de/nowhere.xml'',
                         ''https://x.de/child.XML''].
           seed_urls 8 demo_env demo_web seed))"
proof -
  have l: "length demo_web < 8"
    by (simp add: demo_web_def)
  have e: "map_option fst
       (collect_profile_urls 8 demo_env demo_web
          [''https://x.de/index.xml'', ''https://x.de/nowhere.xml'', ''https://x.de/child.XML'']) =
     Some [''https://x.de/Vermoegensberater/b'', ''https://x.de/vermoegensberater/a'']"
    by code_simp
  from l collect_profile_urls_sorted_union
    [of demo_web 8 demo_env
        "[''https://x.de/index.xml'', ''https://x.de/nowhere.xml'', ''https://x.de/child.XML'']"]
  have "\<exists>urls evs.
      collect_profile_urls 8 demo_env demo_web
          [''https://x.de/index.xml'', ''https://x.de/nowhere.xml'', ''https://x.de/child.XML''] =
        Some (urls, evs) \<and>
      collect_profile_urls (Suc (length demo_web)) demo_env demo_web
          [''https://x.de/index.xml'', ''https://x.de/nowhere.xml'', ''https://x.de/child.XML''] =
        Some (urls, evs) \<and>
      sorted urls \<and> distinct urls \<and>
      set urls =
        (\<Union>seed \<in> set [''https://x.de/index.xml'', ''https://x.de/nowhere.xml'',
                         ''https://x.de/child.XML''].
           seed_urls 8 demo_env demo_web seed)"
    by blast
  with l e show ?thesis by blast
qed

end
